theory Spec2Isabelle
  imports Complex_Main "HOL-Library.Log_Nat"
begin

section \<open>Values and rows\<close>

text \<open>
  The backend is a JavaScript service over a relational store. Request bodies and the
  rows handed back by the store client are JSON values; \<open>JUndefined\<close> stands for a
  property that is absent. Numbers in bodies and rows are kept exact (rationals).
\<close>

datatype json =
    JUndefined
  | JNull
  | JBool bool
  | JNum rat
  | JStr string
  | JObj "(string \<times> json) list"

text \<open>JavaScript truthiness, as used by \<^verbatim>\<open>if (x)\<close>, \<^verbatim>\<open>!x\<close> and \<^verbatim>\<open>x || y\<close>.\<close>

fun truthy :: "json \<Rightarrow> bool" where
  "truthy JUndefined = False"
| "truthy JNull = False"
| "truthy (JBool b) = b"
| "truthy (JNum n) = (n \<noteq> 0)"
| "truthy (JStr s) = (s \<noteq> [])"
| "truthy (JObj kvs) = True"

text \<open>Instants are milliseconds since the epoch, identifiers are strings.\<close>

type_synonym time = int
type_synonym ident = string

text \<open>
  A row of the table \<^verbatim>\<open>scheduled_pins\<close>. The columns a request body can write
  directly (\<open>title\<close>, \<open>description\<close>, \<open>timezone\<close>, \<open>status\<close>,
  \<open>recurrence_pattern\<close>, and the payload columns) hold the JSON value that was
  written; the columns only the server computes have their own types. The audit columns
  \<^verbatim>\<open>created_at\<close>, \<^verbatim>\<open>updated_at\<close>, \<^verbatim>\<open>posted_at\<close> and the
  \<^verbatim>\<open>posted_*\<close> annotations are written but never read by the code below and are
  left out.
\<close>

record pin =
  pid :: ident
  user_id :: ident
  pinterest_account_id :: json
  title :: json
  description :: json
  image_url :: json
  board_id :: json
  link :: json
  scheduled_for :: time
  timezone :: json
  status :: json
  is_recurring :: json
  recurrence_pattern :: json
  retry_count :: nat
  next_retry_at :: "time option"
  error_message :: "string option"
  credits_deducted :: bool
  pinterest_pin_id :: "string option"

record profile =
  prid :: ident
  credits_remaining :: "int option"
  pinterest_access_token :: "string option"

record account =
  aid :: ident
  a_user_id :: ident
  access_token :: "string option"

text \<open>
  The store, together with two logs of outbound effects that the code performs but does
  not record anywhere itself: \<open>post_log\<close> gets the id of a pin each time the publish
  request for it is issued, \<open>debit_log\<close> gets the id of a pin each time the success
  branch calls \<^verbatim>\<open>deductUserCredits\<close> for it and sets its flag.
\<close>

record world =
  pins :: "pin list"
  profiles :: "profile list"
  pinterest_accounts :: "account list"
  post_log :: "ident list"
  debit_log :: "ident list"

text \<open>\<^verbatim>\<open>.update(f).eq('id', i)\<close> on \<^verbatim>\<open>scheduled_pins\<close>.\<close>

definition update_pin :: "ident \<Rightarrow> (pin \<Rightarrow> pin) \<Rightarrow> world \<Rightarrow> world" where
  "update_pin i f w = w\<lparr>pins := map (\<lambda>r. if pid r = i then f r else r) (pins w)\<rparr>"

text \<open>\<^verbatim>\<open>.single()\<close>: exactly one row, otherwise an error and no data.\<close>

fun single :: "'a list \<Rightarrow> 'a option" where
  "single [x] = Some x"
| "single _ = None"

text \<open>The stored rows that carry a given job id.\<close>

definition rows :: "ident \<Rightarrow> world \<Rightarrow> pin list" where
  "rows i w = filter (\<lambda>p. pid p = i) (pins w)"

section \<open>Retry policy\<close>

definition maxRetries :: nat where
  "maxRetries = 3"

text \<open>\<^verbatim>\<open>5 * Math.pow(3, currentRetryCount)\<close>\<close>

definition backoffMinutes :: "nat \<Rightarrow> nat" where
  "backoffMinutes currentRetryCount = 5 * 3 ^ currentRetryCount"

text \<open>
  The time zone of the server process, as the runtime uses it for the local fields of a
  \<^verbatim>\<open>Date\<close>: \<open>local_of\<close> is the wall-clock reading of an instant (in milliseconds,
  the \<^verbatim>\<open>LocalTime\<close> of the language definition) and \<open>utc_of\<close> is the instant the
  runtime assigns to a wall-clock reading (\<^verbatim>\<open>UTC\<close>).
\<close>

record zone =
  local_of :: "time \<Rightarrow> time"
  utc_of :: "time \<Rightarrow> time"

text \<open>
  \<^verbatim>\<open>d.setMinutes(d.getMinutes() + m)\<close> on an instant in milliseconds: the minutes
  field of the local reading is replaced by its value plus \<open>m\<close>, the other local fields
  are kept, and the resulting wall-clock reading is mapped back to an instant.
\<close>

definition add_minutes :: "zone \<Rightarrow> time \<Rightarrow> nat \<Rightarrow> time" where
  "add_minutes z t m = utc_of z (local_of z t + int m * 60000)"

text \<open>
  \<^verbatim>\<open>handlePinError(pinId, errorMessage, currentRetryCount = 0)\<close>; \<open>now\<close> is the
  clock read by \<^verbatim>\<open>new Date()\<close> inside it and \<open>z\<close> the zone of the process.
\<close>

definition handlePinError ::
  "zone \<Rightarrow> time \<Rightarrow> ident \<Rightarrow> string \<Rightarrow> nat \<Rightarrow> world \<Rightarrow> world" where
  "handlePinError z now pinId errorMessage currentRetryCount w =
    (let nextRetryCount = currentRetryCount + 1 in
     if nextRetryCount \<le> maxRetries then
       update_pin pinId (\<lambda>r. r\<lparr>status := JStr ''failed'',
                                 error_message := Some errorMessage,
                                 retry_count := nextRetryCount,
                                 next_retry_at :=
                                   Some (add_minutes z now (backoffMinutes currentRetryCount))\<rparr>) w
     else
       update_pin pinId (\<lambda>r. r\<lparr>status := JStr ''failed'',
                                 error_message := Some (''Max retries reached: '' @ errorMessage),
                                 next_retry_at := None\<rparr>) w)"

section \<open>The due-job query\<close>

text \<open>
  The filter of \<^verbatim>\<open>processScheduledPins\<close>. The query reads the clock twice, once for
  \<^verbatim>\<open>.lte('scheduled_for', ...)\<close> and once for the \<^verbatim>\<open>.or(...)\<close> on
  \<^verbatim>\<open>next_retry_at\<close>.
\<close>

definition is_due :: "time \<Rightarrow> time \<Rightarrow> pin \<Rightarrow> bool" where
  "is_due t1 t2 p \<longleftrightarrow>
     (status p = JStr ''scheduled'' \<or> status p = JStr ''failed'')
     \<and> scheduled_for p \<le> t1
     \<and> (case next_retry_at p of None \<Rightarrow> True | Some t \<Rightarrow> t \<le> t2)"

definition batchLimit :: nat where
  "batchLimit = 10"

definition fetchDue :: "time \<Rightarrow> time \<Rightarrow> world \<Rightarrow> pin list" where
  "fetchDue t1 t2 w = take batchLimit (sort_key scheduled_for (filter (is_due t1 t2) (pins w)))"

section \<open>Publish executor\<close>

text \<open>
  \<^verbatim>\<open>deductUserCredits(userId, amount)\<close>: read the balance, subtract floored at zero,
  write back; a missing profile is logged and skipped.
\<close>

definition deductUserCredits :: "ident \<Rightarrow> int \<Rightarrow> world \<Rightarrow> world" where
  "deductUserCredits userId amount w =
    (case single (filter (\<lambda>p. prid p = userId) (profiles w)) of
       None \<Rightarrow> w
     | Some prof \<Rightarrow>
         (let newCredits =
                max 0 ((case credits_remaining prof of None \<Rightarrow> 0 | Some c \<Rightarrow> c) - amount)
          in w\<lparr>profiles := map (\<lambda>p. if prid p = userId
                                       then p\<lparr>credits_remaining := Some newCredits\<rparr> else p)
                                 (profiles w)\<rparr>))"

text \<open>
  What one attempt meets outside the process: the store refusing the first update, or the
  publish service answering with an id, answering with an error, or the call throwing.
\<close>

datatype outcome =
    DbError
  | ApiOk string
  | ApiError string
  | ApiThrow string

text \<open>
  The embedded resource \<^verbatim>\<open>pinterest_accounts(access_token)\<close> that the due-job query
  selects with each row.
\<close>

definition joined_token :: "world \<Rightarrow> pin \<Rightarrow> string option" where
  "joined_token w p =
    (case pinterest_account_id p of
       JStr a \<Rightarrow> (case find (\<lambda>x. aid x = a) (pinterest_accounts w) of
                    None \<Rightarrow> None
                  | Some x \<Rightarrow> access_token x)
     | _ \<Rightarrow> None)"

text \<open>
  \<^verbatim>\<open>processScheduledPin(pin)\<close>. The argument is the row as the query returned it (with
  its joined token); every write goes to the store by id. \<open>now\<close> is the clock that
  \<^verbatim>\<open>handlePinError\<close> reads if the attempt fails, \<open>z\<close> the zone of the process. The
  call for a missing token passes no retry count, so the default 0 applies. The mirror
  writes to \<^verbatim>\<open>user_images\<close> are left out.
\<close>

definition processScheduledPin ::
  "zone \<Rightarrow> time \<Rightarrow> outcome \<Rightarrow> pin \<times> string option \<Rightarrow> world \<Rightarrow> world" where
  "processScheduledPin z now oc snap w =
    (let pin = fst snap; accessToken = snd snap in
     if oc = DbError then w
     else
       let w1 = update_pin (pid pin) (\<lambda>r. r\<lparr>status := JStr ''posting''\<rparr>) w in
       if accessToken = None \<or> accessToken = Some [] then
         handlePinError z now (pid pin) ''No Pinterest access token found'' 0 w1
       else
         let w2 = w1\<lparr>post_log := post_log w1 @ [pid pin]\<rparr> in
         (case oc of
            ApiOk ext \<Rightarrow>
              (let w3 = update_pin (pid pin)
                          (\<lambda>r. r\<lparr>status := JStr ''posted'',
                                  pinterest_pin_id := Some ext,
                                  error_message := None,
                                  retry_count := 0,
                                  next_retry_at := None\<rparr>) w2
               in if \<not> credits_deducted pin then
                    update_pin (pid pin) (\<lambda>r. r\<lparr>credits_deducted := True\<rparr>)
                      (deductUserCredits (user_id pin) 1
                         (w3\<lparr>debit_log := debit_log w3 @ [pid pin]\<rparr>))
                  else w3)
          | ApiError m \<Rightarrow> handlePinError z now (pid pin) m (retry_count pin) w2
          | ApiThrow m \<Rightarrow> handlePinError z now (pid pin) m (retry_count pin) w2
          | DbError \<Rightarrow> w2))"

section \<open>Scheduler loop\<close>

text \<open>
  One pass of \<^verbatim>\<open>processScheduledPins\<close>: the two clock reads of the query, whether
  the query itself failed, for each pin the outcome of its attempt and the clock at
  its failure, and the zone of the process.
\<close>

record tick =
  t_lte :: time
  t_or :: time
  fetch_error :: bool
  outcome_of :: "ident \<Rightarrow> outcome"
  clock_of :: "ident \<Rightarrow> time"
  zone_of :: zone

fun process_all :: "tick \<Rightarrow> (pin \<times> string option) list \<Rightarrow> world \<Rightarrow> world" where
  "process_all tk [] w = w"
| "process_all tk (s # ss) w =
     process_all tk ss
       (processScheduledPin (zone_of tk) (clock_of tk (pid (fst s)))
          (outcome_of tk (pid (fst s))) s w)"

definition processScheduledPins :: "tick \<Rightarrow> world \<Rightarrow> world" where
  "processScheduledPins tk w =
    (if fetch_error tk then w
     else process_all tk
            (map (\<lambda>p. (p, joined_token w p)) (fetchDue (t_lte tk) (t_or tk) w)) w)"

section \<open>Request handlers\<close>

text \<open>
  What a handler does with a request: a response with an error status and message, a
  success response with its payload, or an exception that leaves the handler uncaught.
\<close>

datatype 'a reply =
    Fail nat string
  | Done 'a
  | Uncaught string

text \<open>
  Built-ins of the JavaScript runtime that the handlers call and whose code is not part of
  the repository: \<^verbatim>\<open>new Date(x).getTime()\<close> (\<open>None\<close> for an invalid date),
  \<^verbatim>\<open>JSON.parse\<close> (\<open>None\<close> when it throws a \<^verbatim>\<open>SyntaxError\<close>), the numeric
  reading of a string in a comparison (\<open>None\<close> for \<^verbatim>\<open>NaN\<close>), and the calendar
  step of \<^verbatim>\<open>setFullYear(getFullYear() + 1)\<close>.
\<close>

record builtins =
  date_of :: "json \<Rightarrow> time option"
  json_parse :: "string \<Rightarrow> json option"
  number_of_string :: "string \<Rightarrow> rat option"
  year_after :: "time \<Rightarrow> time"

subsection \<open>PUT /api/pinterest/scheduled-pins/:id\<close>

record put_body =
  b_title :: json
  b_description :: json
  b_scheduled_for :: json
  b_timezone :: json
  b_status :: json
  b_is_recurring :: json
  b_recurrence_pattern :: json

text \<open>
  The object \<^verbatim>\<open>updates\<close> applied to a row; \<open>sf\<close> is the instant written for
  \<^verbatim>\<open>scheduled_for\<close> when the body supplied one.
\<close>

definition apply_updates :: "put_body \<Rightarrow> time option \<Rightarrow> pin \<Rightarrow> pin" where
  "apply_updates b sf r =
     r\<lparr>title := (if truthy (b_title b) then b_title b else title r),
       description := (if truthy (b_description b) then b_description b else description r),
       scheduled_for := (case sf of Some t \<Rightarrow> t | None \<Rightarrow> scheduled_for r),
       timezone := (if truthy (b_timezone b) then b_timezone b else timezone r),
       status := (if truthy (b_status b) then b_status b else status r),
       is_recurring := (case b_is_recurring b of JBool v \<Rightarrow> JBool v | _ \<Rightarrow> is_recurring r),
       recurrence_pattern := (if truthy (b_recurrence_pattern b) then b_recurrence_pattern b
                              else recurrence_pattern r)\<rparr>"

text \<open>
  \<open>auth\<close> is the user the bearer token resolves to (\<open>None\<close>: no header, or a token
  the auth service rejects). \<open>updateError\<close> tells whether the store answers the update
  with an error, in which case nothing is written and the handler responds 500; that
  covers whatever the store does with an update that sets no column. The select and the
  update of one request are taken on the same state of the store.
\<close>

definition put_scheduled_pin ::
  "builtins \<Rightarrow> ident option \<Rightarrow> ident \<Rightarrow> put_body \<Rightarrow> time \<Rightarrow> bool \<Rightarrow> world \<Rightarrow> pin reply \<times> world" where
  "put_scheduled_pin B auth i b now updateError w =
    (case auth of
       None \<Rightarrow> (Fail 401 ''Unauthorized'', w)
     | Some u \<Rightarrow>
        (case single (filter (\<lambda>p. pid p = i \<and> user_id p = u) (pins w)) of
           None \<Rightarrow> (Fail 404 ''Scheduled pin not found'', w)
         | Some existingPin \<Rightarrow>
            if status existingPin = JStr ''posted'' then
              (Fail 400 ''Cannot update a pin that has already been posted'', w)
            else if truthy (b_scheduled_for b)
                    \<and> (case date_of B (b_scheduled_for b) of
                          Some scheduleDate \<Rightarrow> scheduleDate \<le> now
                        | None \<Rightarrow> False) then
              (Fail 400 ''Scheduled time must be in the future'', w)
            else if truthy (b_scheduled_for b) \<and> date_of B (b_scheduled_for b) = None then
              (Fail 500 ''Failed to update scheduled pin: Invalid time value'', w)
            else if updateError then
              (Fail 500 ''Failed to update scheduled pin'', w)
            else
              (let sf = (if truthy (b_scheduled_for b) then date_of B (b_scheduled_for b)
                         else None);
                   w' = w\<lparr>pins := map (\<lambda>r. if pid r = i \<and> user_id r = u
                                             then apply_updates b sf r else r) (pins w)\<rparr>
               in (Done (apply_updates b sf existingPin), w'))))"

subsection \<open>DELETE /api/pinterest/scheduled-pins/:id\<close>

text \<open>
  Both branches of the handler (a pin that is \<^verbatim>\<open>posting\<close>, and any other pin that is
  not \<^verbatim>\<open>posted\<close>) write the status \<^verbatim>\<open>cancelled\<close>; they differ only in the audit
  column. \<open>updateError\<close> tells whether the store answers the update with an error.
\<close>

definition delete_scheduled_pin ::
  "ident option \<Rightarrow> ident \<Rightarrow> bool \<Rightarrow> world \<Rightarrow> string reply \<times> world" where
  "delete_scheduled_pin auth i updateError w =
    (case auth of
       None \<Rightarrow> (Fail 401 ''Unauthorized'', w)
     | Some u \<Rightarrow>
        (case single (filter (\<lambda>p. pid p = i \<and> user_id p = u) (pins w)) of
           None \<Rightarrow> (Fail 404 ''Scheduled pin not found'', w)
         | Some existingPin \<Rightarrow>
            if status existingPin = JStr ''posted'' then
              (Fail 400 ''Cannot delete a pin that has already been posted'', w)
            else if status existingPin = JStr ''posting'' then
              (if updateError then (Fail 500 ''Failed to cancel scheduled pin'', w)
               else (Done ''Scheduled pin cancelled successfully'',
                     w\<lparr>pins := map (\<lambda>r. if pid r = i \<and> user_id r = u
                                          then r\<lparr>status := JStr ''cancelled''\<rparr> else r)
                                    (pins w)\<rparr>))
            else
              (if updateError then (Fail 500 ''Failed to cancel scheduled pin'', w)
               else (Done ''Scheduled pin cancelled successfully'',
                     w\<lparr>pins := map (\<lambda>r. if pid r = i \<and> user_id r = u
                                          then r\<lparr>status := JStr ''cancelled''\<rparr> else r)
                                    (pins w)\<rparr>))))"

subsection \<open>DELETE /api/pinterest/scheduled-pins/:id/permanent\<close>

text \<open>\<open>deleteError\<close> tells whether the store answers the delete with an error.\<close>

definition delete_scheduled_pin_permanent ::
  "ident option \<Rightarrow> ident \<Rightarrow> bool \<Rightarrow> world \<Rightarrow> string reply \<times> world" where
  "delete_scheduled_pin_permanent auth i deleteError w =
    (case auth of
       None \<Rightarrow> (Fail 401 ''Unauthorized'', w)
     | Some u \<Rightarrow>
        (case single (filter (\<lambda>p. pid p = i \<and> user_id p = u) (pins w)) of
           None \<Rightarrow> (Fail 404 ''Scheduled pin not found'', w)
         | Some existingPin \<Rightarrow>
            if \<not> (status existingPin = JStr ''cancelled'' \<or> status existingPin = JStr ''posted'') then
              (Fail 400 ''Can only permanently delete cancelled or posted pins'', w)
            else if deleteError then
              (Fail 500 ''Failed to permanently delete scheduled pin'', w)
            else
              (Done ''Scheduled pin permanently deleted'',
               w\<lparr>pins := filter (\<lambda>r. \<not> (pid r = i \<and> user_id r = u)) (pins w)\<rparr>)))"

subsection \<open>GET /api/pinterest/scheduled-pins\<close>

record list_response =
  scheduled_pins :: "pin list"
  total :: nat

text \<open>
  \<open>status_q\<close> is the query parameter \<^verbatim>\<open>status\<close> (\<open>None\<close> when absent), applied
  as an equality filter when it is a non-empty string;
  \<open>limit\<close> and \<open>offset\<close> are the results of \<^verbatim>\<open>parseInt\<close> (the caller passes 50 and
  0 when the parameters are absent). \<^verbatim>\<open>.range(offset, offset + limit - 1)\<close> is the
  window of \<open>limit\<close> rows after the first \<open>offset\<close>; the store rejects a negative
  offset or limit.
\<close>

definition list_filter :: "ident \<Rightarrow> string option \<Rightarrow> pin \<Rightarrow> bool" where
  "list_filter u status_q p \<longleftrightarrow>
     user_id p = u
     \<and> (case status_q of
           None \<Rightarrow> True
         | Some s \<Rightarrow> (if s \<noteq> [] then status p = JStr s else True))"

definition get_scheduled_pins ::
  "ident option \<Rightarrow> string option \<Rightarrow> int \<Rightarrow> int \<Rightarrow> world \<Rightarrow> list_response reply" where
  "get_scheduled_pins auth status_q limit offset w =
    (case auth of
       None \<Rightarrow> Fail 401 ''Unauthorized''
     | Some u \<Rightarrow>
        (let matching = sort_key scheduled_for (filter (list_filter u status_q) (pins w))
         in if offset < 0 \<or> limit < 0 then Fail 500 ''Failed to fetch scheduled pins''
            else (let scheduledPins = take (nat limit) (drop (nat offset) matching)
                  in Done \<lparr>scheduled_pins = scheduledPins, total = length scheduledPins\<rparr>)))"

section \<open>Enqueue: POST /api/pinterest/schedule-pin\<close>

record schedule_body =
  s_image_url :: json
  s_title :: json
  s_description :: json
  s_board_id :: json
  s_link :: json
  s_account_id :: json
  s_scheduled_for :: json
  s_timezone :: json
  s_is_recurring :: json
  s_recurrence_pattern :: json

text \<open>
  \<^verbatim>\<open>getPinterestAccessTokenForUser(userId, accountId)\<close>; the result is
  \<^verbatim>\<open>token || null\<close>, so a token that is returned is never empty.
\<close>

definition nonempty :: "string option \<Rightarrow> string option" where
  "nonempty t = (case t of None \<Rightarrow> None | Some s \<Rightarrow> (if s = [] then None else Some s))"

definition getPinterestAccessTokenForUser :: "world \<Rightarrow> ident \<Rightarrow> json \<Rightarrow> string option" where
  "getPinterestAccessTokenForUser w userId accountId =
    (if \<not> truthy accountId then
       (case single (filter (\<lambda>p. prid p = userId) (profiles w)) of
          None \<Rightarrow> None
        | Some prof \<Rightarrow> nonempty (pinterest_access_token prof))
     else
       (case accountId of
          JStr a \<Rightarrow>
            (case single (filter (\<lambda>x. aid x = a \<and> a_user_id x = userId) (pinterest_accounts w)) of
               None \<Rightarrow> None
             | Some acc \<Rightarrow> nonempty (access_token acc))
        | _ \<Rightarrow> None))"

text \<open>
  Property access \<^verbatim>\<open>x.k\<close>: a \<^verbatim>\<open>TypeError\<close> (\<open>None\<close>) on \<^verbatim>\<open>null\<close> and
  \<^verbatim>\<open>undefined\<close>, \<^verbatim>\<open>undefined\<close> for a key that is not there.
\<close>

fun get_prop :: "json \<Rightarrow> string \<Rightarrow> json option" where
  "get_prop JUndefined k = None"
| "get_prop JNull k = None"
| "get_prop (JObj kvs) k = Some (case map_of kvs k of Some v \<Rightarrow> v | None \<Rightarrow> JUndefined)"
| "get_prop (JBool b) k = Some JUndefined"
| "get_prop (JNum n) k = Some JUndefined"
| "get_prop (JStr s) k = Some JUndefined"

text \<open>The number a value is read as by \<^verbatim>\<open><\<close> and \<^verbatim>\<open>>\<close>; \<open>None\<close> is \<^verbatim>\<open>NaN\<close>.\<close>

fun to_number :: "builtins \<Rightarrow> json \<Rightarrow> rat option" where
  "to_number B JUndefined = None"
| "to_number B JNull = Some 0"
| "to_number B (JBool b) = Some (if b then 1 else 0)"
| "to_number B (JNum n) = Some n"
| "to_number B (JStr s) = number_of_string B s"
| "to_number B (JObj kvs) = None"

definition js_less :: "builtins \<Rightarrow> json \<Rightarrow> rat \<Rightarrow> bool" where
  "js_less B x n = (case to_number B x of None \<Rightarrow> False | Some v \<Rightarrow> v < n)"

definition js_greater :: "builtins \<Rightarrow> json \<Rightarrow> rat \<Rightarrow> bool" where
  "js_greater B x n = (case to_number B x of None \<Rightarrow> False | Some v \<Rightarrow> v > n)"

text \<open>
  The block \<^verbatim>\<open>// Validate recurrence pattern if provided\<close>, which runs before the
  handler's \<^verbatim>\<open>try\<close>: \<open>None\<close> when it falls through, otherwise the response it
  returns or the exception that escapes it.
\<close>

definition validate_recurrence :: "builtins \<Rightarrow> json \<Rightarrow> json \<Rightarrow> pin reply option" where
  "validate_recurrence B is_rec rp =
    (if truthy is_rec \<and> truthy rp then
       (case (case rp of JStr s \<Rightarrow> json_parse B s | _ \<Rightarrow> Some rp) of
          None \<Rightarrow> Some (Uncaught ''SyntaxError'')
        | Some pattern \<Rightarrow>
           (case get_prop pattern ''type'' of
              None \<Rightarrow> Some (Uncaught ''TypeError'')
            | Some ty \<Rightarrow>
               if \<not> (ty = JStr ''daily'' \<or> ty = JStr ''weekly'' \<or> ty = JStr ''monthly'') then
                 Some (Fail 400 ''Invalid recurrence type. Must be daily, weekly, or monthly.'')
               else
                 (case get_prop pattern ''interval'' of
                    None \<Rightarrow> Some (Uncaught ''TypeError'')
                  | Some iv \<Rightarrow>
                     if \<not> truthy iv \<or> js_less B iv 1 \<or> js_greater B iv 30 then
                       Some (Fail 400 ''Invalid recurrence interval. Must be between 1 and 30.'')
                     else None)))
     else None)"

text \<open>
  Modelled from the spec: the column defaults of the table \<^verbatim>\<open>scheduled_pins\<close>, whose
  schema is not among the sources. A row the enqueue operation inserts starts in status
  \<^verbatim>\<open>scheduled\<close> with a retry count of 0, no retry instant, no error message, no
  external id, and the credits flag unset. \<open>new_id\<close> is the id the store assigns.
\<close>

definition inserted_row :: "ident \<Rightarrow> ident \<Rightarrow> schedule_body \<Rightarrow> time \<Rightarrow> json \<Rightarrow> json \<Rightarrow> pin" where
  "inserted_row new_id u b t tz is_rec =
    \<lparr>pid = new_id, user_id = u, pinterest_account_id = s_account_id b,
     title = s_title b, description = s_description b, image_url = s_image_url b,
     board_id = s_board_id b,
     link = (if truthy (s_link b) then s_link b else JStr []),
     scheduled_for = t, timezone = tz, status = JStr ''scheduled'',
     is_recurring = is_rec,
     recurrence_pattern = (if truthy is_rec then s_recurrence_pattern b else JNull),
     retry_count = 0, next_retry_at = None, error_message = None,
     credits_deducted = False, pinterest_pin_id = None\<rparr>"

definition post_schedule_pin ::
  "builtins \<Rightarrow> ident option \<Rightarrow> schedule_body \<Rightarrow> time \<Rightarrow> ident \<Rightarrow> world \<Rightarrow> pin reply \<times> world" where
  "post_schedule_pin B auth b now new_id w =
    (case auth of
       None \<Rightarrow> (Fail 401 ''Unauthorized'', w)
     | Some u \<Rightarrow>
        (let tz = (if s_timezone b = JUndefined then JStr ''UTC'' else s_timezone b);
             is_rec = (if s_is_recurring b = JUndefined then JBool False else s_is_recurring b)
         in
         if \<not> truthy (s_image_url b) \<or> \<not> truthy (s_title b) \<or> \<not> truthy (s_description b)
            \<or> \<not> truthy (s_board_id b) \<or> \<not> truthy (s_scheduled_for b) then
           (Fail 400 ''Missing required fields: image_url, title, description, board_id, scheduled_for'', w)
         else
           (let scheduleDate = date_of B (s_scheduled_for b) in
            if (case scheduleDate of Some t \<Rightarrow> t \<le> now | None \<Rightarrow> False) then
              (Fail 400 ''Scheduled time must be in the future'', w)
            else if (case scheduleDate of Some t \<Rightarrow> t > year_after B now | None \<Rightarrow> False) then
              (Fail 400 ''Cannot schedule more than 1 year in advance'', w)
            else if getPinterestAccessTokenForUser w u (s_account_id b) = None then
              (Fail 400 ''No Pinterest access token found for user/account.'', w)
            else
              (case validate_recurrence B is_rec (s_recurrence_pattern b) of
                 Some r \<Rightarrow> (r, w)
               | None \<Rightarrow>
                  (case scheduleDate of
                     None \<Rightarrow> (Fail 500 ''Failed to schedule pin: Invalid time value'', w)
                   | Some t \<Rightarrow>
                      (let row = inserted_row new_id u b t tz is_rec
                       in (Done row, w\<lparr>pins := pins w @ [row]\<rparr>)))))))"

section \<open>Analytics: derived rates\<close>

text \<open>
  JavaScript numbers are IEEE 754 binary64 values and every arithmetic operation returns
  the exact result rounded to the nearest such value, ties to the even significand.
  \<open>rne\<close> is that rounding to an integer, \<open>ilog2\<close> the binary exponent of a positive
  rational (the difference of the bit lengths of numerator and denominator, or one less),
  and \<open>fl\<close> the rounding to 53 significant bits at that exponent. The bounds of the
  exponent range of the format (subnormal numbers, overflow) are not modelled: for
  counters below \<open>2 ^ 53\<close> every value that occurs below is zero or lies between
  \<open>2 ^ - 53\<close> and \<open>2 ^ 67\<close>.
\<close>

definition rne :: "rat \<Rightarrow> int" where
  "rne y = (let f = \<lfloor>y\<rfloor>; r = y - of_int f in
            if r < 1 / 2 then f else if 1 / 2 < r then f + 1 else if even f then f else f + 1)"

definition ilog2 :: "rat \<Rightarrow> int" where
  "ilog2 x = (let c = int (floorlog 2 (nat (fst (quotient_of x))))
                      - int (floorlog 2 (nat (snd (quotient_of x))))
              in if 2 powi c \<le> x then c else c - 1)"

definition fl :: "rat \<Rightarrow> rat" where
  "fl x = (if x = 0 then 0
           else let u = 2 powi (ilog2 \<bar>x\<bar> - 52)
                in sgn x * of_int (rne (\<bar>x\<bar> / u)) * u)"

text \<open>\<^verbatim>\<open>Math.round\<close>: the nearest integer, halves upwards; the result is exact.\<close>

definition js_round :: "rat \<Rightarrow> int" where
  "js_round x = \<lfloor>x + 1 / 2\<rfloor>"

text \<open>\<^verbatim>\<open>Math.round(r * 100) / 100\<close>, the product and the quotient each rounded.\<close>

definition round2 :: "rat \<Rightarrow> rat" where
  "round2 r = fl (of_int (js_round (fl (r * 100))) / 100)"

record rates =
  engagement_rate :: rat
  click_through_rate :: rat
  save_rate :: rat

text \<open>
  The block \<^verbatim>\<open>// Calculate engagement metrics\<close> and the three rate fields of the
  update that follows it; the same text occurs in \<^verbatim>\<open>syncUserAnalytics\<close>, in the
  sync-analytics endpoint and in the pin-analytics endpoint. The arguments are the
  counters after \<^verbatim>\<open>metrics.X || 0\<close>, read as numbers; each sum, quotient and product
  is rounded as the runtime rounds it.
\<close>

definition computeRates :: "nat \<Rightarrow> nat \<Rightarrow> nat \<Rightarrow> nat \<Rightarrow> rates" where
  "computeRates impressions outboundClicks saves pinClicks =
    (let i = fl (of_nat impressions); oc = fl (of_nat outboundClicks);
         s = fl (of_nat saves); pc = fl (of_nat pinClicks);
         engagementRate = (if i > 0 then fl (fl (fl (s + pc) / i) * 100) else 0);
         clickThroughRate = (if i > 0 then fl (fl (oc / i) * 100) else 0);
         saveRate = (if i > 0 then fl (fl (s / i) * 100) else 0)
     in \<lparr>engagement_rate = round2 engagementRate,
         click_through_rate = round2 clickThroughRate,
         save_rate = round2 saveRate\<rparr>)"

text \<open>
  The specification's \<^verbatim>\<open>round(x, 2)\<close>: the exact value \<open>x\<close> rounded to a whole
  number of hundredths, halves upwards as \<^verbatim>\<open>Math.round\<close> takes them.
\<close>

definition two_decimals :: "rat \<Rightarrow> rat" where
  "two_decimals x = of_int \<lfloor>x * 100 + 1 / 2\<rfloor> / 100"

section \<open>Sample data\<close>

definition example_pin :: "ident \<Rightarrow> json \<Rightarrow> time \<Rightarrow> pin" where
  "example_pin i st t =
    \<lparr>pid = i, user_id = ''u1'', pinterest_account_id = JStr ''a1'', title = JStr ''Title'',
     description = JStr ''Text'', image_url = JStr ''http://img'', board_id = JStr ''b1'',
     link = JStr [], scheduled_for = t, timezone = JStr ''UTC'', status = st,
     is_recurring = JBool False, recurrence_pattern = JNull, retry_count = 0,
     next_retry_at = None, error_message = None, credits_deducted = False,
     pinterest_pin_id = None\<rparr>"

definition example_world :: "pin list \<Rightarrow> world" where
  "example_world ps =
    \<lparr>pins = ps,
     profiles = [\<lparr>prid = ''u1'', credits_remaining = Some 5, pinterest_access_token = None\<rparr>],
     pinterest_accounts = [\<lparr>aid = ''a1'', a_user_id = ''u1'', access_token = Some ''tok''\<rparr>],
     post_log = [], debit_log = []\<rparr>"

text \<open>
  A runtime in which dates are given as millisecond numbers, the only JSON texts are
  \<^verbatim>\<open>null\<close> and \<^verbatim>\<open>{}\<close>, and a year has 365 days.
\<close>

definition example_builtins :: builtins where
  "example_builtins =
    \<lparr>date_of = (\<lambda>j. case j of JNum n \<Rightarrow> Some \<lfloor>n\<rfloor> | _ \<Rightarrow> None),
     json_parse = (\<lambda>s. if s = ''null'' then Some JNull
                        else if s = ''{}'' then Some (JObj []) else None),
     number_of_string = (\<lambda>s. None),
     year_after = (\<lambda>t. t + 31536000000)\<rparr>"

text \<open>A process that runs in UTC: the wall-clock reading of an instant is the instant.\<close>

definition utc_zone :: zone where
  "utc_zone = \<lparr>local_of = (\<lambda>t. t), utc_of = (\<lambda>l. l)\<rparr>"

text \<open>
  A zone whose clocks are one hour ahead of UTC before the instant \<open>D\<close> and on UTC from
  \<open>D\<close> on: at \<open>D\<close> the clocks go back one hour. A wall-clock reading that occurs
  twice is taken as its first occurrence.
\<close>

definition fall_back_zone :: "time \<Rightarrow> zone" where
  "fall_back_zone D =
    \<lparr>local_of = (\<lambda>t. if t < D then t + 3600000 else t),
     utc_of = (\<lambda>l. if l < D + 3600000 then l - 3600000 else l)\<rparr>"

text \<open>
  A pass in a UTC process in which both clock reads of the query and the clock at every
  failure give \<open>now\<close> and every attempt meets the outcome \<open>oc\<close>.
\<close>

definition example_tick :: "time \<Rightarrow> outcome \<Rightarrow> tick" where
  "example_tick now oc =
    \<lparr>t_lte = now, t_or = now, fetch_error = False,
     outcome_of = (\<lambda>i. oc), clock_of = (\<lambda>i. now), zone_of = utc_zone\<rparr>"

text \<open>
  An enqueue request that passes every check before the recurrence block and carries a
  recurrence pattern that is not JSON.
\<close>

definition example_request :: schedule_body where
  "example_request =
    \<lparr>s_image_url = JStr ''http://img'', s_title = JStr ''Title'', s_description = JStr ''Text'',
     s_board_id = JStr ''b1'', s_link = JUndefined, s_account_id = JStr ''a1'',
     s_scheduled_for = JNum 5000, s_timezone = JUndefined, s_is_recurring = JBool True,
     s_recurrence_pattern = JStr ''weekly''\<rparr>"

text \<open>
  An update request in which every field is falsy and \<^verbatim>\<open>is_recurring\<close> is not a
  boolean, so that no column is set.
\<close>

definition example_update :: put_body where
  "example_update =
    \<lparr>b_title = JStr [], b_description = JNull, b_scheduled_for = JNum 0,
     b_timezone = JBool False, b_status = JUndefined, b_is_recurring = JNum 0,
     b_recurrence_pattern = JNull\<rparr>"

text \<open>A store with one recurring job that is waiting for its time.\<close>

definition recurring_job :: pin where
  "recurring_job = (example_pin ''p1'' (JStr ''scheduled'') 50)\<lparr>is_recurring := JBool True\<rparr>"

definition recurring_job_store :: world where
  "recurring_job_store = example_world [recurring_job]"

text \<open>An update request that only sets the status.\<close>

definition only_status :: "string \<Rightarrow> put_body" where
  "only_status s =
    \<lparr>b_title = JUndefined, b_description = JUndefined, b_scheduled_for = JUndefined,
     b_timezone = JUndefined, b_status = JStr s, b_is_recurring = JUndefined,
     b_recurrence_pattern = JUndefined\<rparr>"

text \<open>
  A job that has used up its three retries and is waiting for its last retry instant.
\<close>

definition capped_job_store :: world where
  "capped_job_store = example_world
     [(example_pin ''p1'' (JStr ''failed'') 0)\<lparr>retry_count := 3, next_retry_at := Some 900\<rparr>]"

text \<open>
  A job that has failed twice, is waiting for its second retry instant, and whose account
  link has gone, so that the query returns it without a token.
\<close>

definition unlinked_job_store :: world where
  "unlinked_job_store = example_world
     [(example_pin ''p1'' (JStr ''failed'') 0)\<lparr>retry_count := 2, next_retry_at := Some 900,
         pinterest_account_id := JNull\<rparr>]"

text \<open>A store with one job that is due, and one with a cancelled job.\<close>

definition due_job_store :: world where
  "due_job_store = example_world [example_pin ''p1'' (JStr ''scheduled'') 0]"

definition cancelled_job_store :: world where
  "cancelled_job_store = example_world [example_pin ''p6'' (JStr ''cancelled'') 1]"

text \<open>A store with a posted job, a cancelled job and a job that is due.\<close>

definition terminal_store :: world where
  "terminal_store = example_world
     [example_pin ''p2'' (JStr ''posted'') 10,
      example_pin ''p6'' (JStr ''cancelled'') 1,
      example_pin ''p1'' (JStr ''scheduled'') 50]"

text \<open>
  A store with six jobs: two due, one posted, one scheduled for later, one failed job still
  waiting for its retry instant, one cancelled.
\<close>

definition example_store :: world where
  "example_store = example_world
     [example_pin ''p1'' (JStr ''scheduled'') 50,
      example_pin ''p2'' (JStr ''posted'') 10,
      example_pin ''p3'' (JStr ''failed'') 20,
      example_pin ''p4'' (JStr ''scheduled'') 200,
      (example_pin ''p5'' (JStr ''failed'') 5)\<lparr>next_retry_at := Some 500\<rparr>,
      example_pin ''p6'' (JStr ''cancelled'') 1]"

section \<open>Basic facts about the store\<close>

lemma pins_update_pin:
  "pins (update_pin i f w) = map (\<lambda>r. if pid r = i then f r else r) (pins w)"
  by (simp add: update_pin_def)

lemma debit_log_update_pin: "debit_log (update_pin i f w) = debit_log w"
  by (simp add: update_pin_def)

lemma post_log_update_pin: "post_log (update_pin i f w) = post_log w"
  by (simp add: update_pin_def)

lemma update_pin_hit:
  assumes "p' \<in> set (pins (update_pin i f w))" and "pid p' = i" and "\<And>r. pid (f r) = pid r"
  obtains r where "r \<in> set (pins w)" and "pid r = i" and "p' = f r"
proof -
  from assms(1) obtain r where r: "r \<in> set (pins w)" and e: "p' = (if pid r = i then f r else r)"
    unfolding pins_update_pin by auto
  show thesis
  proof (cases "pid r = i")
    case True
    with r e that show thesis by simp
  next
    case False
    with e have "p' = r" by simp
    with assms(2) False show thesis by simp
  qed
qed

lemma update_pin_miss:
  assumes "p' \<in> set (pins (update_pin i f w))" and "pid p' \<noteq> i" and "\<And>r. pid (f r) = pid r"
  shows "p' \<in> set (pins w)"
proof -
  from assms(1) obtain r where r: "r \<in> set (pins w)" and e: "p' = (if pid r = i then f r else r)"
    unfolding pins_update_pin by auto
  show ?thesis
  proof (cases "pid r = i")
    case True
    with e have "pid p' = i" by (simp add: assms(3))
    with assms(2) show ?thesis by simp
  next
    case False
    with e r show ?thesis by simp
  qed
qed

lemma map_pid_update_pin:
  "(\<And>r. pid (f r) = pid r) \<Longrightarrow> map pid (pins (update_pin i f w)) = map pid (pins w)"
  by (simp add: pins_update_pin)

lemma handlePinError_retry:
  "currentRetryCount + 1 \<le> maxRetries \<Longrightarrow>
   handlePinError z now i msg currentRetryCount w =
     update_pin i (\<lambda>r. r\<lparr>status := JStr ''failed'', error_message := Some msg,
        retry_count := currentRetryCount + 1,
        next_retry_at := Some (add_minutes z now (backoffMinutes currentRetryCount))\<rparr>) w"
  unfolding handlePinError_def Let_def by (simp only: if_True)

lemma handlePinError_final:
  "\<not> currentRetryCount + 1 \<le> maxRetries \<Longrightarrow>
   handlePinError z now i msg currentRetryCount w =
     update_pin i (\<lambda>r. r\<lparr>status := JStr ''failed'',
        error_message := Some (''Max retries reached: '' @ msg),
        next_retry_at := None\<rparr>) w"
  unfolding handlePinError_def Let_def by (simp only: if_False)

lemma backoffMinutes_values:
  "backoffMinutes 0 = 5" "backoffMinutes 1 = 15" "backoffMinutes 2 = 45"
  by (simp_all add: backoffMinutes_def)


text \<open>
  In a zone whose offset from UTC is the same at both ends, \<^verbatim>\<open>setMinutes\<close> adds the
  minutes to the instant.
\<close>

lemma add_minutes_constant_offset:
  assumes "local_of z t = t + d" and "utc_of z (t + d + int m * 60000) = t + int m * 60000"
  shows "add_minutes z t m = t + int m * 60000"
  using assms by (simp add: add_minutes_def)

lemma add_minutes_utc_zone: "add_minutes utc_zone t m = t + int m * 60000"
  by (simp add: add_minutes_def utc_zone_def)

text \<open>
  What \<^verbatim>\<open>handlePinError\<close> writes in its retry branch: every row with the job's id
  gets status \<^verbatim>\<open>failed\<close>, the count it was called with plus one, and the retry
  instant computed from that count; no row is added or removed.
\<close>

lemma handlePinError_writes:
  assumes "currentRetryCount + 1 \<le> maxRetries"
  shows "(\<forall>p' \<in> set (pins (handlePinError z now i msg currentRetryCount w)). pid p' = i \<longrightarrow>
            status p' = JStr ''failed''
          \<and> retry_count p' = currentRetryCount + 1
          \<and> next_retry_at p' = Some (add_minutes z now (5 * 3 ^ (retry_count p' - 1))))
       \<and> map pid (pins (handlePinError z now i msg currentRetryCount w)) = map pid (pins w)"
proof (intro conjI ballI impI)
  fix p'
  assume mem: "p' \<in> set (pins (handlePinError z now i msg currentRetryCount w))"
    and i: "pid p' = i"
  from mem[unfolded handlePinError_retry[OF assms]] i
  obtain r where p'': "p' = r\<lparr>status := JStr ''failed'', error_message := Some msg,
        retry_count := currentRetryCount + 1,
        next_retry_at := Some (add_minutes z now (backoffMinutes currentRetryCount))\<rparr>"
    by (rule update_pin_hit) simp_all
  show "status p' = JStr ''failed''" by (simp add: p'')
  show "retry_count p' = currentRetryCount + 1" by (simp add: p'')
  show "next_retry_at p' = Some (add_minutes z now (5 * 3 ^ (retry_count p' - 1)))"
    by (simp add: p'' backoffMinutes_def)
next
  show "map pid (pins (handlePinError z now i msg currentRetryCount w)) = map pid (pins w)"
    unfolding handlePinError_retry[OF assms] by (rule map_pid_update_pin) simp
qed

section \<open>The due set\<close>

text \<open>
  C5. Whatever the store holds and whatever the two clock reads of the query are, every
  job \<^verbatim>\<open>fetchDue\<close> returns is a stored job whose status is \<^verbatim>\<open>scheduled\<close> or
  \<^verbatim>\<open>failed\<close> (so neither \<^verbatim>\<open>posted\<close> nor \<^verbatim>\<open>cancelled\<close>), whose
  \<^verbatim>\<open>scheduled_for\<close> is not after the clock, and whose \<^verbatim>\<open>next_retry_at\<close> is null or
  not after the clock; the result is in ascending order of \<^verbatim>\<open>scheduled_for\<close> and has
  at most 10 jobs.
\<close>

theorem fetchDue_sound:
  "(\<forall>p \<in> set (fetchDue t1 t2 w).
       p \<in> set (pins w)
     \<and> (status p = JStr ''scheduled'' \<or> status p = JStr ''failed'')
     \<and> status p \<noteq> JStr ''posted'' \<and> status p \<noteq> JStr ''cancelled''
     \<and> scheduled_for p \<le> t1
     \<and> (next_retry_at p = None \<or> (\<exists>t. next_retry_at p = Some t \<and> t \<le> t2)))
   \<and> sorted (map scheduled_for (fetchDue t1 t2 w))
   \<and> length (fetchDue t1 t2 w) \<le> 10"
proof (intro conjI ballI)
  fix p assume "p \<in> set (fetchDue t1 t2 w)"
  then have "p \<in> set (sort_key scheduled_for (filter (is_due t1 t2) (pins w)))"
    unfolding fetchDue_def by (rule in_set_takeD)
  then have mem: "p \<in> set (pins w)" and due: "is_due t1 t2 p" by simp_all
  show "p \<in> set (pins w)" by (rule mem)
  from due show "status p = JStr ''scheduled'' \<or> status p = JStr ''failed''"
    by (simp add: is_due_def)
  from due show "status p \<noteq> JStr ''posted''" by (auto simp: is_due_def)
  from due show "status p \<noteq> JStr ''cancelled''" by (auto simp: is_due_def)
  from due show "scheduled_for p \<le> t1" by (simp add: is_due_def)
  from due show "next_retry_at p = None \<or> (\<exists>t. next_retry_at p = Some t \<and> t \<le> t2)"
    by (cases "next_retry_at p") (simp_all add: is_due_def)
next
  have "sorted (take batchLimit
          (map scheduled_for (sort_key scheduled_for (filter (is_due t1 t2) (pins w)))))"
    by (rule sorted_wrt_take) simp
  then show "sorted (map scheduled_for (fetchDue t1 t2 w))"
    by (simp only: fetchDue_def take_map)
next
  show "length (fetchDue t1 t2 w) \<le> 10"
    by (simp add: fetchDue_def batchLimit_def)
qed

lemma fetchDue_example: "map pid (fetchDue 100 100 example_store) = [''p3'', ''p1'']"
  by (simp add: fetchDue_def example_store_def example_world_def example_pin_def is_due_def
      batchLimit_def)

theorem fetchDue_sound_witness:
  "map pid (fetchDue 100 100 example_store) = [''p3'', ''p1'']
   \<and> map status (fetchDue 100 100 example_store) = [JStr ''failed'', JStr ''scheduled'']
   \<and> sorted (map scheduled_for (fetchDue 100 100 example_store))
   \<and> length (fetchDue 100 100 example_store) \<le> 10"
proof -
  have st: "map status (fetchDue 100 100 example_store) = [JStr ''failed'', JStr ''scheduled'']"
    by (simp add: fetchDue_def example_store_def example_world_def example_pin_def is_due_def
        batchLimit_def)
  from fetchDue_sound[of 100 100 example_store]
  have "sorted (map scheduled_for (fetchDue 100 100 example_store))"
    and "length (fetchDue 100 100 example_store) \<le> 10"
    by blast+
  with fetchDue_example st show ?thesis by blast
qed

section \<open>Facts about the sample data\<close>

lemma example_pin_fields:
  "pid (example_pin i st t) = i"
  "user_id (example_pin i st t) = ''u1''"
  "pinterest_account_id (example_pin i st t) = JStr ''a1''"
  "scheduled_for (example_pin i st t) = t"
  "status (example_pin i st t) = st"
  "retry_count (example_pin i st t) = 0"
  "next_retry_at (example_pin i st t) = None"
  "credits_deducted (example_pin i st t) = False"
  by (simp_all add: example_pin_def)

section \<open>Rounding to binary64\<close>

lemma rne_near: "\<bar>of_int (rne y) - y\<bar> \<le> 1 / 2"
proof -
  have lo: "of_int \<lfloor>y\<rfloor> \<le> y" and hi: "y < of_int \<lfloor>y\<rfloor> + 1" by linarith+
  consider "y - of_int \<lfloor>y\<rfloor> < 1 / 2" | "1 / 2 < y - of_int \<lfloor>y\<rfloor>" | "y - of_int \<lfloor>y\<rfloor> = 1 / 2"
    by linarith
  then show ?thesis
  proof cases
    case 1
    then have "rne y = \<lfloor>y\<rfloor>" by (simp add: rne_def Let_def)
    with 1 lo show ?thesis by simp
  next
    case 2
    then have "rne y = \<lfloor>y\<rfloor> + 1" by (simp add: rne_def Let_def)
    with 2 hi show ?thesis by simp
  next
    case 3
    then have "rne y = \<lfloor>y\<rfloor> \<or> rne y = \<lfloor>y\<rfloor> + 1" by (simp add: rne_def Let_def)
    with 3 show ?thesis by auto
  qed
qed

lemma rne_eqI: "of_int m - 1 / 2 < y \<Longrightarrow> y < of_int m + 1 / 2 \<Longrightarrow> rne y = m"
proof -
  assume a: "of_int m - 1 / 2 < y" "y < of_int m + 1 / 2"
  have "\<bar>of_int (rne y) - y\<bar> \<le> 1 / 2" by (rule rne_near)
  with a have "\<bar>(of_int (rne y) :: rat) - of_int m\<bar> < 1" by linarith
  then have "\<bar>(of_int (rne y - m) :: rat)\<bar> < 1" by simp
  then have "\<bar>rne y - m\<bar> < 1" by (simp only: of_int_abs[symmetric] of_int_less_1_iff)
  then show ?thesis by linarith
qed

lemma rne_of_int: "rne (of_int z) = z"
  by (rule rne_eqI) simp_all

lemma rne_nonneg: "0 \<le> y \<Longrightarrow> 0 \<le> rne y"
proof -
  assume "0 \<le> y"
  have "\<bar>of_int (rne y) - y\<bar> \<le> 1 / 2" by (rule rne_near)
  with \<open>0 \<le> y\<close> have "(-1 :: rat) < of_int (rne y)" by linarith
  then have "-1 < rne y" by (metis of_int_less_iff of_int_minus of_int_1)
  then show ?thesis by linarith
qed

lemma floorlog_rat_bounds:
  assumes "0 < n"
  shows "(2::rat) powi (int (floorlog 2 (nat n)) - 1) \<le> of_int n"
    and "of_int n < (2::rat) powi (int (floorlog 2 (nat n)))"
proof -
  let ?b = "floorlog 2 (nat n)"
  from assms have "0 < nat n" by simp
  from floorlog_bounds[OF this, of 2] have lo: "2 ^ (?b - 1) \<le> nat n" and hi: "nat n < 2 ^ ?b"
    by simp_all
  from assms have b0: "0 < ?b" by (simp add: floorlog_def)
  from lo have "int (2 ^ (?b - 1)) \<le> n" using assms by linarith
  then have "(of_int (int (2 ^ (?b - 1))) :: rat) \<le> of_int n" by (simp only: of_int_le_iff)
  then have "(2::rat) ^ (?b - 1) \<le> of_int n" by simp
  moreover have "int ?b - 1 = int (?b - 1)" using b0 by simp
  ultimately show "(2::rat) powi (int ?b - 1) \<le> of_int n" by (simp only: power_int_of_nat)
  from hi have "n < int (2 ^ ?b)" using assms by linarith
  then have "(of_int n :: rat) < of_int (int (2 ^ ?b))" by (simp only: of_int_less_iff)
  then show "of_int n < (2::rat) powi (int ?b)" by simp
qed

lemma ilog2_bounds:
  assumes "0 < x"
  shows "2 powi ilog2 x \<le> x \<and> x < 2 powi (ilog2 x + 1)"
proof -
  obtain p q where pq: "quotient_of x = (p, q)" by (cases "quotient_of x")
  then have q: "0 < q" and x: "x = of_int p / of_int q"
    by (simp_all add: quotient_of_denom_pos quotient_of_div)
  from assms x q have p: "0 < p" by (simp add: zero_less_divide_iff)
  let ?bp = "int (floorlog 2 (nat p))" and ?bq = "int (floorlog 2 (nat q))"
  let ?c = "?bp - ?bq"
  note P = floorlog_rat_bounds[OF p] and Q = floorlog_rat_bounds[OF q]
  have qpos: "(0::rat) < of_int q" using q by simp
  have two: "(2::rat) \<noteq> 0" by simp
  have lower: "2 powi (?c - 1) \<le> x"
  proof -
    have "?c - 1 = (?bp - 1) - ?bq" by simp
    then have "2 powi (?c - 1) = (2::rat) powi (?bp - 1) / 2 powi ?bq"
      by (simp only: power_int_diff[OF disjI1[OF two]])
    also have "\<dots> \<le> of_int p / 2 powi ?bq"
      using P(1) by (simp add: divide_right_mono)
    also have "\<dots> \<le> of_int p / of_int q"
    proof (rule divide_left_mono[OF less_imp_le[OF Q(2)]])
      from p show "(0::rat) \<le> of_int p" by simp
      have "(0::rat) < 2 powi ?bq" by (rule zero_less_power_int) simp
      then show "(0::rat) < 2 powi ?bq * of_int q" using qpos by (rule mult_pos_pos)
    qed
    finally show ?thesis by (simp add: x)
  qed
  have upper: "x < 2 powi (?c + 1)"
  proof -
    have "x = of_int p / of_int q" by (rule x)
    also have "\<dots> < 2 powi ?bp / of_int q"
      using P(2) qpos by (simp add: divide_strict_right_mono)
    also have "\<dots> \<le> 2 powi ?bp / 2 powi (?bq - 1)"
    proof (rule divide_left_mono[OF Q(1)])
      show "(0::rat) \<le> 2 powi ?bp" by (rule less_imp_le) (rule zero_less_power_int, simp)
      have "(0::rat) < 2 powi (?bq - 1)" by (rule zero_less_power_int) simp
      with qpos show "(0::rat) < of_int q * 2 powi (?bq - 1)" by (rule mult_pos_pos)
    qed
    also have "\<dots> = (2::rat) powi (?bp - (?bq - 1))"
      by (simp only: power_int_diff[OF disjI1[OF two]])
    also have "?bp - (?bq - 1) = ?c + 1" by simp
    finally show ?thesis .
  qed
  have il: "ilog2 x = (if 2 powi ?c \<le> x then ?c else ?c - 1)"
    by (simp add: ilog2_def Let_def pq)
  show ?thesis
  proof (cases "2 powi ?c \<le> x")
    case True
    with il upper show ?thesis by simp
  next
    case False
    with il lower show ?thesis by simp
  qed
qed


lemma pow2_less_exp:
  assumes "(2::rat) powi a < 2 powi b"
  shows "a < b"
proof (rule ccontr)
  assume "\<not> a < b"
  then have "b \<le> a" by simp
  then have "(2::rat) powi b \<le> 2 powi a" by (rule power_int_increasing) simp
  with assms show False by simp
qed

lemma ilog2_eqI:
  assumes "0 < x" and "2 powi k \<le> x" and "x < 2 powi (k + 1)"
  shows "ilog2 x = k"
proof -
  from ilog2_bounds[OF assms(1)] have lo: "2 powi ilog2 x \<le> x" and hi: "x < 2 powi (ilog2 x + 1)"
    by simp_all
  from lo assms(3) have "(2::rat) powi ilog2 x < 2 powi (k + 1)" by (rule le_less_trans)
  then have "ilog2 x < k + 1" by (rule pow2_less_exp)
  moreover from assms(2) hi have "(2::rat) powi k < 2 powi (ilog2 x + 1)" by (rule le_less_trans)
  then have "k < ilog2 x + 1" by (rule pow2_less_exp)
  ultimately show ?thesis by simp
qed

lemma fl_pos:
  assumes "0 < x"
  shows "fl x = of_int (rne (x / 2 powi (ilog2 x - 52))) * 2 powi (ilog2 x - 52)"
  using assms by (simp add: fl_def Let_def)

lemma fl_eqI:
  assumes "0 < x" and "2 powi k \<le> x" and "x < 2 powi (k + 1)"
    and "of_int m - 1 / 2 < x / 2 powi (k - 52)" and "x / 2 powi (k - 52) < of_int m + 1 / 2"
  shows "fl x = of_int m * 2 powi (k - 52)"
proof -
  have k: "ilog2 x = k" by (rule ilog2_eqI[OF assms(1-3)])
  have "rne (x / 2 powi (k - 52)) = m" by (rule rne_eqI[OF assms(4,5)])
  with k show ?thesis by (simp add: fl_pos[OF assms(1)])
qed

lemma fl_zero: "fl 0 = 0"
  by (simp add: fl_def)

lemma fl_nonneg:
  assumes "0 \<le> x"
  shows "0 \<le> fl x"
proof (cases "x = 0")
  case True
  then show ?thesis by (simp add: fl_zero)
next
  case False
  with assms have x: "0 < x" by simp
  have "0 \<le> x / 2 powi (ilog2 x - 52)" using x by simp
  then have "0 \<le> rne (x / 2 powi (ilog2 x - 52))" by (rule rne_nonneg)
  then show ?thesis unfolding fl_pos[OF x] by simp
qed

text \<open>Relative error of one rounding: at most \<open>2 ^ - 53\<close>.\<close>

lemma fl_error:
  assumes "0 \<le> x"
  shows "\<bar>fl x - x\<bar> \<le> x / 2 ^ 53"
proof (cases "x = 0")
  case True
  then show ?thesis by (simp add: fl_zero)
next
  case False
  with assms have x: "0 < x" by simp
  let ?k = "ilog2 x"
  let ?u = "(2::rat) powi (?k - 52)"
  have u: "0 < ?u" by simp
  have "\<bar>of_int (rne (x / ?u)) - x / ?u\<bar> \<le> 1 / 2" by (rule rne_near)
  then have "\<bar>of_int (rne (x / ?u)) - x / ?u\<bar> * ?u \<le> 1 / 2 * ?u"
    using u by (simp only: mult_le_cancel_right_pos)
  moreover have "\<bar>of_int (rne (x / ?u)) - x / ?u\<bar> * ?u = \<bar>of_int (rne (x / ?u)) * ?u - x\<bar>"
  proof -
    have "\<bar>of_int (rne (x / ?u)) - x / ?u\<bar> * ?u = \<bar>(of_int (rne (x / ?u)) - x / ?u) * ?u\<bar>"
      using u by (simp add: abs_mult)
    also have "(of_int (rne (x / ?u)) - x / ?u) * ?u = of_int (rne (x / ?u)) * ?u - x"
      using u by (simp add: left_diff_distrib)
    finally show ?thesis .
  qed
  ultimately have e: "\<bar>fl x - x\<bar> \<le> ?u / 2" by (simp add: fl_pos[OF x])
  have "?k - 52 = ?k - 53 + 1" by simp
  have "?u / 2 = 2 powi ?k / 2 ^ 53"
  proof -
    have "(2::rat) powi (?k - 52) = 2 powi ?k / 2 powi 52"
      by (rule power_int_diff) simp
    then show ?thesis by simp
  qed
  also have "\<dots> \<le> x / 2 ^ 53"
    using ilog2_bounds[OF x] by (simp add: divide_right_mono)
  finally have "?u / 2 \<le> x / 2 ^ 53" .
  with e show ?thesis by linarith
qed

text \<open>Integers below \<open>2 ^ 53\<close> are represented exactly.\<close>

lemma fl_of_nat:
  assumes "n < 2 ^ 53"
  shows "fl (of_nat n) = of_nat n"
proof (cases "n = 0")
  case True
  then show ?thesis by (simp add: fl_zero)
next
  case False
  then have x: "(0::rat) < of_nat n" by simp
  let ?k = "ilog2 (of_nat n)"
  from assms have "(of_nat n :: rat) < of_nat (2 ^ 53)" by (simp only: of_nat_less_iff)
  then have "(of_nat n :: rat) < 2 powi 53" by simp
  with ilog2_bounds[OF x] have "(2::rat) powi ?k < 2 powi 53" by simp
  then have "?k < 53" by (rule pow2_less_exp)
  then obtain d where d: "52 - ?k = int d" using nonneg_int_cases[of "52 - ?k"] by auto
  then have "?k - 52 = - int d" by simp
  then have u: "(2::rat) powi (?k - 52) = inverse (2 ^ d)"
    by (simp add: power_int_minus)
  have "of_nat n / inverse ((2::rat) ^ d) = of_int (int (n * 2 ^ d))"
    by (simp add: field_simps)
  then have "rne (of_nat n / inverse ((2::rat) ^ d)) = int (n * 2 ^ d)"
    by (simp only: rne_of_int)
  then show ?thesis unfolding fl_pos[OF x] u by simp
qed

section \<open>Derived rates\<close>

lemma round2_zero: "round2 0 = 0"
proof -
  have "\<lfloor>(1::rat) / 2\<rfloor> = 0" by (rule floor_unique) simp_all
  then show ?thesis by (simp add: round2_def js_round_def fl_zero)
qed

lemma fl_between:
  assumes "0 \<le> x"
  shows "x - x / 2 ^ 53 \<le> fl x" and "fl x \<le> x + x / 2 ^ 53"
proof -
  from fl_error[OF assms]
  have "fl x - x \<le> x / 2 ^ 53 \<and> - (fl x - x) \<le> x / 2 ^ 53" by (simp only: abs_le_iff)
  then show "x - x / 2 ^ 53 \<le> fl x" and "fl x \<le> x + x / 2 ^ 53" by linarith+
qed

lemma percent_chain:
  assumes "0 \<le> a"
  shows "\<bar>of_int (js_round (fl (fl (fl a * 100) * 100))) / 100 - a * 100\<bar>
           \<le> 1 / 200 + a * 100 / 2 ^ 51"
proof -
  define q where "q = fl a"
  define E where "E = fl (q * 100)"
  define y where "y = fl (E * 100)"
  define K where "K = (of_int (js_round y) :: rat)"
  have q0: "0 \<le> q" unfolding q_def by (rule fl_nonneg[OF assms])
  then have q1: "0 \<le> q * 100" by simp
  have E0: "0 \<le> E" unfolding E_def by (rule fl_nonneg[OF q1])
  then have E1: "0 \<le> E * 100" by simp
  have bq: "a - a / 2 ^ 53 \<le> q" "q \<le> a + a / 2 ^ 53"
    unfolding q_def by (rule fl_between[OF assms])+
  have bE: "q * 100 - q * 100 / 2 ^ 53 \<le> E" "E \<le> q * 100 + q * 100 / 2 ^ 53"
    unfolding E_def by (rule fl_between[OF q1])+
  have by': "E * 100 - E * 100 / 2 ^ 53 \<le> y" "y \<le> E * 100 + E * 100 / 2 ^ 53"
    unfolding y_def by (rule fl_between[OF E1])+
  have K1: "K \<le> y + 1 / 2" and K2: "y + 1 / 2 < K + 1"
    unfolding K_def js_round_def by linarith+
  have up: "y \<le> a * 10000 + a * 10000 / 2 ^ 51"
    using bq(2) bE(2) by'(2) assms by simp
  have lo: "a * 10000 - a * 10000 / 2 ^ 51 \<le> y"
    using bq(1) bE(1) by'(1) assms by simp
  have "\<bar>K / 100 - a * 100\<bar> \<le> 1 / 200 + a * 100 / 2 ^ 51"
    using up lo K1 K2 by (simp add: abs_le_iff) 
  then show ?thesis unfolding K_def y_def E_def q_def .
qed


lemma computeRates_zero:
  "computeRates 0 outboundClicks saves pinClicks =
     \<lparr>engagement_rate = 0, click_through_rate = 0, save_rate = 0\<rparr>"
  by (simp add: computeRates_def Let_def fl_zero round2_zero)

lemma computeRates_exact_inputs:
  assumes "0 < impressions" and "impressions < 2 ^ 53" and "outboundClicks < 2 ^ 53"
    and "saves + pinClicks < 2 ^ 53"
  shows "engagement_rate (computeRates impressions outboundClicks saves pinClicks) =
           round2 (fl (fl (of_nat (saves + pinClicks) / of_nat impressions) * 100))"
    and "click_through_rate (computeRates impressions outboundClicks saves pinClicks) =
           round2 (fl (fl (of_nat outboundClicks / of_nat impressions) * 100))"
    and "save_rate (computeRates impressions outboundClicks saves pinClicks) =
           round2 (fl (fl (of_nat saves / of_nat impressions) * 100))"
proof -
  from assms(4) have s: "saves < 2 ^ 53" and p: "pinClicks < 2 ^ 53" by simp_all
  have i: "fl (of_nat impressions) = of_nat impressions" by (rule fl_of_nat[OF assms(2)])
  have o: "fl (of_nat outboundClicks) = of_nat outboundClicks" by (rule fl_of_nat[OF assms(3)])
  have s': "fl (of_nat saves) = of_nat saves" by (rule fl_of_nat[OF s])
  have p': "fl (of_nat pinClicks) = of_nat pinClicks" by (rule fl_of_nat[OF p])
  have sp: "fl (of_nat saves + of_nat pinClicks) = of_nat (saves + pinClicks)"
    using fl_of_nat[OF assms(4)] by simp
  from assms(1) have pos: "(0::rat) < of_nat impressions" by simp
  show "engagement_rate (computeRates impressions outboundClicks saves pinClicks) =
           round2 (fl (fl (of_nat (saves + pinClicks) / of_nat impressions) * 100))"
    using pos by (simp add: computeRates_def Let_def i o s' p' sp del: of_nat_add)
  show "click_through_rate (computeRates impressions outboundClicks saves pinClicks) =
           round2 (fl (fl (of_nat outboundClicks / of_nat impressions) * 100))"
    using pos by (simp add: computeRates_def Let_def i o s' p' sp del: of_nat_add)
  show "save_rate (computeRates impressions outboundClicks saves pinClicks) =
           round2 (fl (fl (of_nat saves / of_nat impressions) * 100))"
    using pos by (simp add: computeRates_def Let_def i o s' p' sp del: of_nat_add)
qed

lemma round2_percent:
  assumes "0 \<le> a"
  shows "\<exists>k. round2 (fl (fl a * 100)) = fl (of_int k / 100)
           \<and> \<bar>of_int k / 100 - a * 100\<bar> \<le> 1 / 200 + a * 100 / 2 ^ 51"
  unfolding round2_def using percent_chain[OF assms] by blast

text \<open>
  C7, as the code has it. For counters below \<open>2 ^ 53\<close>: with no impressions the three
  rates are 0; otherwise each rate is the number nearest to \<open>k / 100\<close> for a whole
  number \<open>k\<close> of hundredths that lies within half a hundredth, plus the rounding
  error of the four operations before \<^verbatim>\<open>Math.round\<close>, of the count divided by the
  impressions and multiplied by 100. The count is saves plus pin clicks for the engagement
  rate, outbound clicks for the click-through rate, saves for the save rate.
\<close>

theorem computeRates_two_decimals:
  assumes "impressions < 2 ^ 53" and "outboundClicks < 2 ^ 53" and "saves + pinClicks < 2 ^ 53"
  shows "(impressions = 0 \<longrightarrow>
            computeRates impressions outboundClicks saves pinClicks =
              \<lparr>engagement_rate = 0, click_through_rate = 0, save_rate = 0\<rparr>)
       \<and> (0 < impressions \<longrightarrow>
            (\<exists>k. engagement_rate (computeRates impressions outboundClicks saves pinClicks)
                   = fl (of_int k / 100)
                 \<and> \<bar>(of_int k / 100 :: rat) - of_nat (saves + pinClicks) / of_nat impressions * 100\<bar>
                     \<le> 1 / 200 + of_nat (saves + pinClicks) / of_nat impressions * 100 / 2 ^ 51)
          \<and> (\<exists>k. click_through_rate (computeRates impressions outboundClicks saves pinClicks)
                   = fl (of_int k / 100)
                 \<and> \<bar>(of_int k / 100 :: rat) - of_nat outboundClicks / of_nat impressions * 100\<bar>
                     \<le> 1 / 200 + of_nat outboundClicks / of_nat impressions * 100 / 2 ^ 51)
          \<and> (\<exists>k. save_rate (computeRates impressions outboundClicks saves pinClicks)
                   = fl (of_int k / 100)
                 \<and> \<bar>(of_int k / 100 :: rat) - of_nat saves / of_nat impressions * 100\<bar>
                     \<le> 1 / 200 + of_nat saves / of_nat impressions * 100 / 2 ^ 51))"
proof (intro conjI impI)
  assume "impressions = 0"
  then show "computeRates impressions outboundClicks saves pinClicks =
              \<lparr>engagement_rate = 0, click_through_rate = 0, save_rate = 0\<rparr>"
    by (simp only: computeRates_zero)
next
  assume pos: "0 < impressions"
  note e = computeRates_exact_inputs[OF pos assms]
  have "(0::rat) \<le> of_nat (saves + pinClicks) / of_nat impressions" by simp
  from round2_percent[OF this]
  show "\<exists>k. engagement_rate (computeRates impressions outboundClicks saves pinClicks)
                   = fl (of_int k / 100)
                 \<and> \<bar>(of_int k / 100 :: rat) - of_nat (saves + pinClicks) / of_nat impressions * 100\<bar>
                     \<le> 1 / 200 + of_nat (saves + pinClicks) / of_nat impressions * 100 / 2 ^ 51"
    by (simp only: e(1))
next
  assume pos: "0 < impressions"
  note e = computeRates_exact_inputs[OF pos assms]
  have "(0::rat) \<le> of_nat outboundClicks / of_nat impressions" by simp
  from round2_percent[OF this]
  show "\<exists>k. click_through_rate (computeRates impressions outboundClicks saves pinClicks)
                   = fl (of_int k / 100)
                 \<and> \<bar>(of_int k / 100 :: rat) - of_nat outboundClicks / of_nat impressions * 100\<bar>
                     \<le> 1 / 200 + of_nat outboundClicks / of_nat impressions * 100 / 2 ^ 51"
    by (simp only: e(2))
next
  assume pos: "0 < impressions"
  note e = computeRates_exact_inputs[OF pos assms]
  have "(0::rat) \<le> of_nat saves / of_nat impressions" by simp
  from round2_percent[OF this]
  show "\<exists>k. save_rate (computeRates impressions outboundClicks saves pinClicks)
                   = fl (of_int k / 100)
                 \<and> \<bar>(of_int k / 100 :: rat) - of_nat saves / of_nat impressions * 100\<bar>
                     \<le> 1 / 200 + of_nat saves / of_nat impressions * 100 / 2 ^ 51"
    by (simp only: e(3))
qed

theorem computeRates_two_decimals_witness:
  "computeRates 0 1 2 3 = \<lparr>engagement_rate = 0, click_through_rate = 0, save_rate = 0\<rparr>
   \<and> (\<exists>k. save_rate (computeRates 160 7 23 4) = fl (of_int k / 100)
          \<and> \<bar>(of_int k / 100 :: rat) - of_nat 23 / of_nat 160 * 100\<bar>
                \<le> 1 / 200 + of_nat 23 / of_nat 160 * 100 / 2 ^ 51)
   \<and> (\<exists>k. click_through_rate (computeRates 160 7 23 4) = fl (of_int k / 100)
          \<and> \<bar>(of_int k / 100 :: rat) - of_nat 7 / of_nat 160 * 100\<bar>
                \<le> 1 / 200 + of_nat 7 / of_nat 160 * 100 / 2 ^ 51)
   \<and> (\<exists>k. engagement_rate (computeRates 160 7 23 4) = fl (of_int k / 100)
          \<and> \<bar>(of_int k / 100 :: rat) - of_nat (23 + 4) / of_nat 160 * 100\<bar>
                \<le> 1 / 200 + of_nat (23 + 4) / of_nat 160 * 100 / 2 ^ 51)"
proof -
  have z: "(0::nat) < 2 ^ 53" "(1::nat) < 2 ^ 53" "(2::nat) + 3 < 2 ^ 53" by simp_all
  have h: "(160::nat) < 2 ^ 53" "(7::nat) < 2 ^ 53" "(23::nat) + 4 < 2 ^ 53" by simp_all
  from computeRates_two_decimals[OF z]
  have a: "computeRates 0 1 2 3 = \<lparr>engagement_rate = 0, click_through_rate = 0, save_rate = 0\<rparr>"
    by blast
  have p: "(0::nat) < 160" by simp
  from computeRates_two_decimals[OF h] p show ?thesis using a by blast
qed

subsection \<open>A tie\<close>

lemma fl_23_160: "fl (23 / 160) = 2589569785738035 / 18014398509481984"
proof -
  have "fl (23 / 160) = of_int 5179139571476070 * 2 powi (- 3 - 52)"
    by (rule fl_eqI) (simp_all add: power_int_def power_divide)
  then show ?thesis by (simp add: power_int_def power_divide)
qed

lemma fl_step2: "fl (2589569785738035 / 18014398509481984 * 100) = 8092405580431359 / 562949953421312"
proof -
  have "fl (2589569785738035 / 18014398509481984 * 100) = of_int 8092405580431359 * 2 powi (3 - 52)"
    by (rule fl_eqI) (simp_all add: power_int_def power_divide)
  then show ?thesis by (simp add: power_int_def power_divide)
qed

lemma fl_step3: "fl (8092405580431359 / 562949953421312 * 100) = 6322191859711999 / 4398046511104"
proof -
  have "fl (8092405580431359 / 562949953421312 * 100) = of_int 6322191859711999 * 2 powi (10 - 52)"
    by (rule fl_eqI) (simp_all add: power_int_def power_divide)
  then show ?thesis by (simp add: power_int_def power_divide)
qed

lemma round_step: "js_round (6322191859711999 / 4398046511104) = 1437"
  unfolding js_round_def by (rule floor_unique) simp_all

lemma save_rate_160_23: "save_rate (computeRates 160 0 23 0) = fl (1437 / 100)"
proof -
  have "save_rate (computeRates 160 0 23 0) = round2 (fl (fl (of_nat 23 / of_nat 160) * 100))"
    by (rule computeRates_exact_inputs) simp_all
  also have "\<dots> = fl (of_int (js_round (fl (fl (fl (of_nat 23 / of_nat 160) * 100) * 100))) / 100)"
    by (simp only: round2_def)
  also have "of_nat 23 / of_nat 160 = (23 / 160 :: rat)" by simp
  also have "fl (of_int (js_round (fl (fl (fl (23 / 160) * 100) * 100))) / 100)
               = fl (of_int 1437 / 100)"
    by (simp only: fl_23_160 fl_step2 fl_step3 round_step)
  also have "\<dots> = fl (1437 / 100)" by simp
  finally show ?thesis .
qed

lemma two_decimals_tie: "two_decimals (of_nat 23 / of_nat 160 * 100) = 1438 / 100"
proof -
  have "\<lfloor>(23::rat) / 160 * 100 * 100 + 1 / 2\<rfloor> = 1438" by (rule floor_unique) simp_all
  then show ?thesis by (simp add: two_decimals_def)
qed

lemma not_the_rounded_value: "fl (1437 / 100) \<noteq> fl (1438 / 100)"
proof -
  have a: "fl (1437 / 100) \<le> 1437 / 100 + 1437 / 100 / 2 ^ 53"
    by (rule fl_between) simp
  have b: "1438 / 100 - 1438 / 100 / 2 ^ 53 \<le> fl (1438 / 100)"
    by (rule fl_between) simp
  from a b show ?thesis by simp
qed

lemma not_the_exact_value: "fl (1437 / 100) \<noteq> 1438 / 100"
proof -
  have a: "fl (1437 / 100) \<le> 1437 / 100 + 1437 / 100 / 2 ^ 53"
    by (rule fl_between) simp
  then show ?thesis by simp
qed

lemma fl_1_32: "fl (1 / 32) = 1 / 32"
proof -
  have "fl (1 / 32) = of_int 4503599627370496 * 2 powi (- 5 - 52)"
    by (rule fl_eqI) (simp_all add: power_int_def power_divide)
  then show ?thesis by (simp add: power_int_def power_divide)
qed

lemma fl_25_8: "fl (1 / 32 * 100) = 25 / 8"
proof -
  have "fl (1 / 32 * 100) = of_int 7036874417766400 * 2 powi (1 - 52)"
    by (rule fl_eqI) (simp_all add: power_int_def power_divide)
  then show ?thesis by (simp add: power_int_def power_divide)
qed

lemma fl_625_2: "fl (25 / 8 * 100) = 625 / 2"
proof -
  have "fl (25 / 8 * 100) = of_int 5497558138880000 * 2 powi (8 - 52)"
    by (rule fl_eqI) (simp_all add: power_int_def power_divide)
  then show ?thesis by (simp add: power_int_def power_divide)
qed

lemma round_tie: "js_round (625 / 2) = 313"
  unfolding js_round_def by (rule floor_unique) simp_all

lemma two_decimals_1_32: "two_decimals (of_nat 1 / of_nat 32 * 100) = 313 / 100"
proof -
  have "\<lfloor>(1::rat) / 32 * 100 * 100 + 1 / 2\<rfloor> = 313" by (rule floor_unique) simp_all
  then show ?thesis by (simp add: two_decimals_def)
qed

lemma save_rate_32_1: "save_rate (computeRates 32 0 1 0) = fl (313 / 100)"
proof -
  have "save_rate (computeRates 32 0 1 0) = round2 (fl (fl (of_nat 1 / of_nat 32) * 100))"
    by (rule computeRates_exact_inputs) simp_all
  also have "\<dots> = fl (of_int (js_round (fl (fl (fl (of_nat 1 / of_nat 32) * 100) * 100))) / 100)"
    by (simp only: round2_def)
  also have "of_nat 1 / of_nat 32 = (1 / 32 :: rat)" by simp
  also have "fl (of_int (js_round (fl (fl (fl (1 / 32) * 100) * 100))) / 100)
               = fl (of_int 313 / 100)"
    by (simp only: fl_1_32 fl_25_8 fl_625_2 round_tie)
  also have "\<dots> = fl (313 / 100)" by simp
  finally show ?thesis .
qed

text \<open>
  C7, as the specification states it, does not hold. With 160 impressions and 23 saves the
  exact rate is 14.375 percent, which rounded to two decimals is 14.38. The quotient
  \<open>23 / 160\<close> is not a binary64 value; after the two products the number that reaches
  \<^verbatim>\<open>Math.round\<close> is \<open>6322191859711999 / 2 ^ 42\<close>, just below 1437.5, and the rate
  written is 14.37. With 32 impressions and 1 save every step is exact and the tie 312.5
  goes up to 3.13, so the code does not take ties downwards either.
\<close>

theorem tie_rounded_down:
  "of_nat 23 / of_nat 160 * 100 = (14375 / 1000 :: rat)
   \<and> two_decimals (of_nat 23 / of_nat 160 * 100) = 1438 / 100
   \<and> save_rate (computeRates 160 0 23 0) = fl (1437 / 100)
   \<and> save_rate (computeRates 160 0 23 0) \<noteq> two_decimals (of_nat 23 / of_nat 160 * 100)
   \<and> save_rate (computeRates 160 0 23 0) \<noteq> fl (two_decimals (of_nat 23 / of_nat 160 * 100))
   \<and> two_decimals (of_nat 1 / of_nat 32 * 100) = 313 / 100
   \<and> save_rate (computeRates 32 0 1 0) = fl (two_decimals (of_nat 1 / of_nat 32 * 100))"
proof -
  have "of_nat 23 / of_nat 160 * 100 = (14375 / 1000 :: rat)" by simp
  moreover note two_decimals_tie save_rate_160_23 two_decimals_1_32
  moreover have "save_rate (computeRates 160 0 23 0) \<noteq> two_decimals (of_nat 23 / of_nat 160 * 100)"
    by (simp only: save_rate_160_23 two_decimals_tie not_the_exact_value not_False_eq_True)
  moreover have "save_rate (computeRates 160 0 23 0)
                   \<noteq> fl (two_decimals (of_nat 23 / of_nat 160 * 100))"
    by (simp only: save_rate_160_23 two_decimals_tie not_the_rounded_value not_False_eq_True)
  moreover have "save_rate (computeRates 32 0 1 0) = fl (two_decimals (of_nat 1 / of_nat 32 * 100))"
    by (simp only: save_rate_32_1 two_decimals_1_32)
  ultimately show ?thesis by (intro conjI)
qed
section \<open>Listing\<close>

text \<open>
  C10. Whenever the list handler answers with a page, the \<^verbatim>\<open>total\<close> field of the
  response is the number of jobs in that page: the number of the owner's jobs that match
  the filter, less the offset, capped by the limit. It is not the number of matching jobs.
\<close>

theorem get_scheduled_pins_total:
  assumes "get_scheduled_pins (Some u) status_q limit offset w = Done resp"
  shows "total resp = length (scheduled_pins resp)
       \<and> total resp = min (nat limit) (length (filter (list_filter u status_q) (pins w)) - nat offset)"
proof -
  let ?m = "sort_key scheduled_for (filter (list_filter u status_q) (pins w))"
  from assms have ok: "\<not> (offset < 0 \<or> limit < 0)"
    by (auto simp: get_scheduled_pins_def Let_def split: if_splits)
  with assms have r: "resp = \<lparr>scheduled_pins = take (nat limit) (drop (nat offset) ?m),
       total = length (take (nat limit) (drop (nat offset) ?m))\<rparr>"
    by (simp add: get_scheduled_pins_def Let_def)
  have "length (take (nat limit) (drop (nat offset) ?m))
      = min (nat limit) (length (filter (list_filter u status_q) (pins w)) - nat offset)"
    by (simp add: min.commute)
  with r show ?thesis by simp
qed

lemma example_store_matching:
  "length (filter (list_filter ''u1'' None) (pins example_store)) = 6"
  by (simp add: example_store_def example_world_def example_pin_fields list_filter_def)

lemma get_scheduled_pins_example:
  "get_scheduled_pins (Some ''u1'') None 2 1 example_store =
     Done \<lparr>scheduled_pins = [(example_pin ''p5'' (JStr ''failed'') 5)\<lparr>next_retry_at := Some 500\<rparr>,
                              example_pin ''p2'' (JStr ''posted'') 10],
           total = 2\<rparr>"
  by (simp add: get_scheduled_pins_def Let_def example_store_def example_world_def
      example_pin_fields list_filter_def)

theorem get_scheduled_pins_total_witness:
  "get_scheduled_pins (Some ''u1'') None 2 1 example_store =
     Done \<lparr>scheduled_pins = [(example_pin ''p5'' (JStr ''failed'') 5)\<lparr>next_retry_at := Some 500\<rparr>,
                              example_pin ''p2'' (JStr ''posted'') 10],
           total = 2\<rparr>
   \<and> min (nat 2) (length (filter (list_filter ''u1'' None) (pins example_store)) - nat 1) = 2
   \<and> length (filter (list_filter ''u1'' None) (pins example_store)) = 6"
proof -
  from get_scheduled_pins_total[OF get_scheduled_pins_example]
  have "min (nat 2) (length (filter (list_filter ''u1'' None) (pins example_store)) - nat 1) = 2"
    by simp
  with get_scheduled_pins_example example_store_matching show ?thesis by blast
qed

section \<open>Enqueue validation\<close>

text \<open>
  C8. There are enqueue requests, authenticated and passing every earlier check, with a
  truthy \<^verbatim>\<open>is_recurring\<close> and a \<^verbatim>\<open>recurrence_pattern\<close> that is a non-empty string
  \<^verbatim>\<open>JSON.parse\<close> rejects, and on each of them the handler ends with the
  \<^verbatim>\<open>SyntaxError\<close> uncaught and the store untouched, not with a validation response.
\<close>

theorem post_schedule_pin_uncaught:
  assumes "truthy (s_image_url b)" and "truthy (s_title b)" and "truthy (s_description b)"
    and "truthy (s_board_id b)" and "truthy (s_scheduled_for b)"
    and "date_of B (s_scheduled_for b) = Some t" and "now < t" and "t \<le> year_after B now"
    and "getPinterestAccessTokenForUser w u (s_account_id b) = Some tok"
    and "truthy (s_is_recurring b)"
    and "s_recurrence_pattern b = JStr s" and "s \<noteq> []" and "json_parse B s = None"
  shows "post_schedule_pin B (Some u) b now new_id w = (Uncaught ''SyntaxError'', w)"
proof -
  from assms(10) have u: "s_is_recurring b \<noteq> JUndefined" by auto
  have v: "validate_recurrence B (s_is_recurring b) (s_recurrence_pattern b)
             = Some (Uncaught ''SyntaxError'')"
    using assms(10-13) by (simp add: validate_recurrence_def)
  show ?thesis
    using assms(1-9) u v by (simp add: post_schedule_pin_def Let_def)
qed

theorem post_schedule_pin_uncaught_witness:
  "post_schedule_pin example_builtins (Some ''u1'') example_request 1000 ''p9'' (example_world [])
     = (Uncaught ''SyntaxError'', example_world [])"
proof -
  have tok: "getPinterestAccessTokenForUser (example_world []) ''u1'' (s_account_id example_request)
               = Some ''tok''"
    by (simp add: getPinterestAccessTokenForUser_def example_world_def example_request_def
        nonempty_def)
  have d: "date_of example_builtins (s_scheduled_for example_request) = Some 5000"
    by (simp add: example_builtins_def example_request_def)
  show ?thesis
    by (rule post_schedule_pin_uncaught[where t = 5000 and tok = "''tok''" and s = "''weekly''"])
       (simp_all add: tok d, simp_all add: example_request_def example_builtins_def)
qed

section \<open>User update\<close>

lemma put_scheduled_pin_found:
  assumes "single (filter (\<lambda>p. pid p = i \<and> user_id p = u) (pins w)) = Some e"
    and "status e \<noteq> JStr ''posted''"
  shows "put_scheduled_pin B (Some u) i b now ue w =
    (if truthy (b_scheduled_for b)
        \<and> (case date_of B (b_scheduled_for b) of Some d \<Rightarrow> d \<le> now | None \<Rightarrow> False) then
       (Fail 400 ''Scheduled time must be in the future'', w)
     else if truthy (b_scheduled_for b) \<and> date_of B (b_scheduled_for b) = None then
       (Fail 500 ''Failed to update scheduled pin: Invalid time value'', w)
     else if ue then
       (Fail 500 ''Failed to update scheduled pin'', w)
     else
       (Done (apply_updates b (if truthy (b_scheduled_for b) then date_of B (b_scheduled_for b)
                                else None) e),
        w\<lparr>pins := map (\<lambda>r. if pid r = i \<and> user_id r = u
                             then apply_updates b (if truthy (b_scheduled_for b)
                                                   then date_of B (b_scheduled_for b) else None) r
                             else r) (pins w)\<rparr>))"
  using assms by (simp add: put_scheduled_pin_def Let_def)

lemma put_scheduled_pin_posted:
  assumes "single (filter (\<lambda>p. pid p = i \<and> user_id p = u) (pins w)) = Some e"
    and "status e = JStr ''posted''"
  shows "put_scheduled_pin B (Some u) i b now ue w =
           (Fail 400 ''Cannot update a pin that has already been posted'', w)"
  using assms by (simp add: put_scheduled_pin_def)

lemma put_scheduled_pin_pins:
  "pins (snd (put_scheduled_pin B auth i b now ue w)) = pins w
   \<or> (\<exists>u sf. pins (snd (put_scheduled_pin B auth i b now ue w)) =
         map (\<lambda>r. if pid r = i \<and> user_id r = u then apply_updates b sf r else r) (pins w)
       \<and> (\<exists>e. single (filter (\<lambda>p. pid p = i \<and> user_id p = u) (pins w)) = Some e
               \<and> status e \<noteq> JStr ''posted'')
       \<and> sf = (if truthy (b_scheduled_for b) then date_of B (b_scheduled_for b) else None))"
proof (cases auth)
  case None
  then show ?thesis by (simp add: put_scheduled_pin_def)
next
  case (Some u)
  show ?thesis
  proof (cases "single (filter (\<lambda>p. pid p = i \<and> user_id p = u) (pins w))")
    case None
    with Some show ?thesis by (simp add: put_scheduled_pin_def)
  next
    case (Some e)
    note found = this
    show ?thesis
    proof (cases "status e = JStr ''posted''")
      case True
      with found \<open>auth = Some u\<close> show ?thesis by (simp add: put_scheduled_pin_posted)
    next
      case False
      note f = put_scheduled_pin_found[OF found False, of B b now ue]
      show ?thesis
      proof (cases "snd (put_scheduled_pin B (Some u) i b now ue w) = w")
        case True
        with \<open>auth = Some u\<close> show ?thesis by simp
      next
        case ne: False
        with f have "pins (snd (put_scheduled_pin B (Some u) i b now ue w)) =
            map (\<lambda>r. if pid r = i \<and> user_id r = u
                      then apply_updates b (if truthy (b_scheduled_for b)
                                            then date_of B (b_scheduled_for b) else None) r
                      else r) (pins w)"
          by (auto split: if_splits)
        with found False \<open>auth = Some u\<close> show ?thesis by blast
      qed
    qed
  qed
qed

lemma apply_updates_fields:
  "pid (apply_updates b sf r) = pid r"
  "user_id (apply_updates b sf r) = user_id r"
  "credits_deducted (apply_updates b sf r) = credits_deducted r"
  "title (apply_updates b sf r) = (if truthy (b_title b) then b_title b else title r)"
  "description (apply_updates b sf r) =
     (if truthy (b_description b) then b_description b else description r)"
  "timezone (apply_updates b sf r) = (if truthy (b_timezone b) then b_timezone b else timezone r)"
  "status (apply_updates b sf r) = (if truthy (b_status b) then b_status b else status r)"
  "recurrence_pattern (apply_updates b sf r) =
     (if truthy (b_recurrence_pattern b) then b_recurrence_pattern b else recurrence_pattern r)"
  "scheduled_for (apply_updates b sf r) = (case sf of Some t \<Rightarrow> t | None \<Rightarrow> scheduled_for r)"
  "is_recurring (apply_updates b sf r) =
     (case b_is_recurring b of JBool v \<Rightarrow> JBool v | _ \<Rightarrow> is_recurring r)"
  by (simp_all add: apply_updates_def)

lemma map_cond_unchanged:
  assumes "\<And>r. g (f r) = g r"
  shows "map g (map (\<lambda>r. if c r then f r else r) xs) = map g xs"
  by (induction xs) (simp_all add: assms)

lemma put_keeps_column:
  assumes g: "\<And>sf r. g (apply_updates b sf r) = g r"
  shows "map g (pins (snd (put_scheduled_pin B auth i b now ue w))) = map g (pins w)"
proof -
  from put_scheduled_pin_pins[of B auth i b now ue w] show ?thesis
  proof
    assume "pins (snd (put_scheduled_pin B auth i b now ue w)) = pins w"
    then show ?thesis by simp
  next
    assume "\<exists>u sf. pins (snd (put_scheduled_pin B auth i b now ue w)) =
         map (\<lambda>r. if pid r = i \<and> user_id r = u then apply_updates b sf r else r) (pins w)
       \<and> (\<exists>e. single (filter (\<lambda>p. pid p = i \<and> user_id p = u) (pins w)) = Some e
               \<and> status e \<noteq> JStr ''posted'')
       \<and> sf = (if truthy (b_scheduled_for b) then date_of B (b_scheduled_for b) else None)"
    then obtain u sf where p: "pins (snd (put_scheduled_pin B auth i b now ue w)) =
         map (\<lambda>r. if pid r = i \<and> user_id r = u then apply_updates b sf r else r) (pins w)"
      by blast
    show ?thesis unfolding p by (rule map_cond_unchanged) (rule g)
  qed
qed

lemma filter_single_map:
  assumes "single (filter c xs) = Some e" and "\<And>r. c (f r) = c r"
  shows "filter c (map (\<lambda>r. if c r then f r else r) xs) = [f e]"
proof -
  have m: "filter c (map (\<lambda>r. if c r then f r else r) xs) = map f (filter c xs)"
    by (induction xs) (simp_all add: assms(2))
  from assms(1) have "filter c xs = [e]"
    by (cases "filter c xs" rule: single.cases) simp_all
  with m show ?thesis by simp
qed

text \<open>
  C9. On an update request for a job that exists, belongs to the caller and is not
  \<^verbatim>\<open>posted\<close>: a falsy \<^verbatim>\<open>title\<close>, \<^verbatim>\<open>description\<close>, \<^verbatim>\<open>timezone\<close>,
  \<^verbatim>\<open>scheduled_for\<close>, \<^verbatim>\<open>status\<close> or \<^verbatim>\<open>recurrence_pattern\<close> in the body leaves
  that column of every stored row as it was, whether or not the store accepts the update.
  A falsy \<^verbatim>\<open>scheduled_for\<close> is not validated: the request is answered with the row
  after the update when the store accepts it and with the 500 of a refused update
  otherwise. \<^verbatim>\<open>is_recurring\<close> is written whenever it is a boolean, \<^verbatim>\<open>false\<close>
  included.
\<close>

theorem put_scheduled_pin_falsy_ignored:
  assumes "single (filter (\<lambda>p. pid p = i \<and> user_id p = u) (pins w)) = Some e"
    and "status e \<noteq> JStr ''posted''"
  shows "(\<not> truthy (b_title b) \<longrightarrow>
            map title (pins (snd (put_scheduled_pin B (Some u) i b now ue w))) = map title (pins w))
       \<and> (\<not> truthy (b_description b) \<longrightarrow>
            map description (pins (snd (put_scheduled_pin B (Some u) i b now ue w)))
              = map description (pins w))
       \<and> (\<not> truthy (b_timezone b) \<longrightarrow>
            map timezone (pins (snd (put_scheduled_pin B (Some u) i b now ue w)))
              = map timezone (pins w))
       \<and> (\<not> truthy (b_status b) \<longrightarrow>
            map status (pins (snd (put_scheduled_pin B (Some u) i b now ue w)))
              = map status (pins w))
       \<and> (\<not> truthy (b_recurrence_pattern b) \<longrightarrow>
            map recurrence_pattern (pins (snd (put_scheduled_pin B (Some u) i b now ue w)))
              = map recurrence_pattern (pins w))
       \<and> (\<not> truthy (b_scheduled_for b) \<longrightarrow>
            map scheduled_for (pins (snd (put_scheduled_pin B (Some u) i b now ue w)))
              = map scheduled_for (pins w)
          \<and> fst (put_scheduled_pin B (Some u) i b now ue w) =
              (if ue then Fail 500 ''Failed to update scheduled pin''
               else Done (apply_updates b None e)))
       \<and> ((\<forall>v. b_is_recurring b \<noteq> JBool v) \<longrightarrow>
            map is_recurring (pins (snd (put_scheduled_pin B (Some u) i b now ue w)))
              = map is_recurring (pins w))
       \<and> (\<forall>v r. b_is_recurring b = JBool v
                \<and> fst (put_scheduled_pin B (Some u) i b now ue w) = Done r \<longrightarrow>
            is_recurring r = JBool v
          \<and> filter (\<lambda>p. pid p = i \<and> user_id p = u)
               (pins (snd (put_scheduled_pin B (Some u) i b now ue w))) = [r])"
proof (intro conjI impI allI)
  assume "\<not> truthy (b_title b)"
  then show "map title (pins (snd (put_scheduled_pin B (Some u) i b now ue w))) = map title (pins w)"
    by (intro put_keeps_column) (simp add: apply_updates_fields)
next
  assume "\<not> truthy (b_description b)"
  then show "map description (pins (snd (put_scheduled_pin B (Some u) i b now ue w)))
              = map description (pins w)"
    by (intro put_keeps_column) (simp add: apply_updates_fields)
next
  assume "\<not> truthy (b_timezone b)"
  then show "map timezone (pins (snd (put_scheduled_pin B (Some u) i b now ue w)))
              = map timezone (pins w)"
    by (intro put_keeps_column) (simp add: apply_updates_fields)
next
  assume "\<not> truthy (b_status b)"
  then show "map status (pins (snd (put_scheduled_pin B (Some u) i b now ue w)))
              = map status (pins w)"
    by (intro put_keeps_column) (simp add: apply_updates_fields)
next
  assume "\<not> truthy (b_recurrence_pattern b)"
  then show "map recurrence_pattern (pins (snd (put_scheduled_pin B (Some u) i b now ue w)))
              = map recurrence_pattern (pins w)"
    by (intro put_keeps_column) (simp add: apply_updates_fields)
next
  assume f: "\<not> truthy (b_scheduled_for b)"
  have k: "\<And>sf r. scheduled_for (apply_updates b None r) = scheduled_for r"
    by (simp add: apply_updates_fields)
  have "pins (snd (put_scheduled_pin B (Some u) i b now ue w)) = pins w
        \<or> pins (snd (put_scheduled_pin B (Some u) i b now ue w)) =
          map (\<lambda>r. if pid r = i \<and> user_id r = u then apply_updates b None r else r) (pins w)"
    unfolding put_scheduled_pin_found[OF assms] using f by simp
  then show "map scheduled_for (pins (snd (put_scheduled_pin B (Some u) i b now ue w)))
              = map scheduled_for (pins w)"
  proof
    assume "pins (snd (put_scheduled_pin B (Some u) i b now ue w)) = pins w"
    then show ?thesis by simp
  next
    assume p: "pins (snd (put_scheduled_pin B (Some u) i b now ue w)) =
          map (\<lambda>r. if pid r = i \<and> user_id r = u then apply_updates b None r else r) (pins w)"
    show ?thesis unfolding p by (rule map_cond_unchanged) (rule k)
  qed
  show "fst (put_scheduled_pin B (Some u) i b now ue w) =
              (if ue then Fail 500 ''Failed to update scheduled pin''
               else Done (apply_updates b None e))"
    unfolding put_scheduled_pin_found[OF assms] using f by simp
next
  assume n: "\<forall>v. b_is_recurring b \<noteq> JBool v"
  have "\<And>sf r. is_recurring (apply_updates b sf r) = is_recurring r"
  proof -
    fix sf r
    show "is_recurring (apply_updates b sf r) = is_recurring r"
    proof (cases "b_is_recurring b")
      case (JBool v)
      with n show ?thesis by blast
    qed (simp_all add: apply_updates_fields)
  qed
  then show "map is_recurring (pins (snd (put_scheduled_pin B (Some u) i b now ue w)))
              = map is_recurring (pins w)"
    by (rule put_keeps_column)
next
  fix v r
  assume a: "b_is_recurring b = JBool v
             \<and> fst (put_scheduled_pin B (Some u) i b now ue w) = Done r"
  let ?sf = "if truthy (b_scheduled_for b) then date_of B (b_scheduled_for b) else None"
  from a have d: "fst (put_scheduled_pin B (Some u) i b now ue w) = Done r" by simp
  from d have r: "r = apply_updates b ?sf e"
    unfolding put_scheduled_pin_found[OF assms] by (auto split: if_splits)
  from d have p: "pins (snd (put_scheduled_pin B (Some u) i b now ue w)) =
      map (\<lambda>r. if pid r = i \<and> user_id r = u then apply_updates b ?sf r else r) (pins w)"
    unfolding put_scheduled_pin_found[OF assms] by (auto split: if_splits)
  from a show "is_recurring r = JBool v" by (simp add: r apply_updates_fields)
  show "filter (\<lambda>p. pid p = i \<and> user_id p = u)
               (pins (snd (put_scheduled_pin B (Some u) i b now ue w))) = [r]"
    unfolding p r
    by (rule filter_single_map[OF assms(1)]) (simp add: apply_updates_fields)
qed

theorem put_scheduled_pin_falsy_ignored_witness:
  "single (filter (\<lambda>p. pid p = ''p1'' \<and> user_id p = ''u1'') (pins recurring_job_store))
     = Some recurring_job
   \<and> status recurring_job \<noteq> JStr ''posted''
   \<and> put_scheduled_pin example_builtins (Some ''u1'') ''p1'' example_update 1000 False
         recurring_job_store
       = (Done recurring_job, recurring_job_store)
   \<and> put_scheduled_pin example_builtins (Some ''u1'') ''p1'' example_update 1000 True
         recurring_job_store
       = (Fail 500 ''Failed to update scheduled pin'', recurring_job_store)
   \<and> map title (pins (snd (put_scheduled_pin example_builtins (Some ''u1'') ''p1''
         (example_update\<lparr>b_is_recurring := JBool False\<rparr>) 1000 False recurring_job_store)))
       = [JStr ''Title'']
   \<and> map description (pins (snd (put_scheduled_pin example_builtins (Some ''u1'') ''p1''
         (example_update\<lparr>b_is_recurring := JBool False\<rparr>) 1000 False recurring_job_store)))
       = [JStr ''Text'']
   \<and> map timezone (pins (snd (put_scheduled_pin example_builtins (Some ''u1'') ''p1''
         (example_update\<lparr>b_is_recurring := JBool False\<rparr>) 1000 False recurring_job_store)))
       = [JStr ''UTC'']
   \<and> map status (pins (snd (put_scheduled_pin example_builtins (Some ''u1'') ''p1''
         (example_update\<lparr>b_is_recurring := JBool False\<rparr>) 1000 False recurring_job_store)))
       = [JStr ''scheduled'']
   \<and> map recurrence_pattern (pins (snd (put_scheduled_pin example_builtins (Some ''u1'') ''p1''
         (example_update\<lparr>b_is_recurring := JBool False\<rparr>) 1000 False recurring_job_store)))
       = [JNull]
   \<and> map scheduled_for (pins (snd (put_scheduled_pin example_builtins (Some ''u1'') ''p1''
         (example_update\<lparr>b_is_recurring := JBool False\<rparr>) 1000 False recurring_job_store)))
       = [50]
   \<and> map is_recurring (filter (\<lambda>p. pid p = ''p1'' \<and> user_id p = ''u1'')
         (pins (snd (put_scheduled_pin example_builtins (Some ''u1'') ''p1''
           (example_update\<lparr>b_is_recurring := JBool False\<rparr>) 1000 False recurring_job_store))))
       = [JBool False]"
proof -
  let ?e = recurring_job
  let ?w = recurring_job_store
  let ?b = "example_update\<lparr>b_is_recurring := JBool False\<rparr>"
  let ?R = "put_scheduled_pin example_builtins (Some ''u1'') ''p1'' ?b 1000 False ?w"
  let ?A = "put_scheduled_pin example_builtins (Some ''u1'') ''p1'' example_update 1000 False ?w"
  let ?F = "put_scheduled_pin example_builtins (Some ''u1'') ''p1'' example_update 1000 True ?w"
  have found: "single (filter (\<lambda>p. pid p = ''p1'' \<and> user_id p = ''u1'') (pins ?w)) = Some ?e"
    by (simp add: recurring_job_store_def recurring_job_def example_world_def example_pin_fields)
  have np: "status ?e \<noteq> JStr ''posted''"
    by (simp add: recurring_job_def example_pin_fields)
  note t = put_scheduled_pin_falsy_ignored[OF found np, of ?b example_builtins 1000 False]
  note ta = put_scheduled_pin_falsy_ignored[OF found np, of example_update example_builtins 1000 False]
  note tf = put_scheduled_pin_falsy_ignored[OF found np, of example_update example_builtins 1000 True]
  have falsy: "\<not> truthy (b_title ?b)" "\<not> truthy (b_description ?b)"
    "\<not> truthy (b_timezone ?b)" "\<not> truthy (b_status ?b)"
    "\<not> truthy (b_recurrence_pattern ?b)" "\<not> truthy (b_scheduled_for ?b)"
    by (simp_all add: example_update_def)
  have falsy': "\<not> truthy (b_title example_update)" "\<not> truthy (b_description example_update)"
    "\<not> truthy (b_timezone example_update)" "\<not> truthy (b_status example_update)"
    "\<not> truthy (b_recurrence_pattern example_update)"
    "\<not> truthy (b_scheduled_for example_update)"
    "\<forall>v. b_is_recurring example_update \<noteq> JBool v"
    by (simp_all add: example_update_def)
  have cols: "map title (pins ?w) = [JStr ''Title'']" "map description (pins ?w) = [JStr ''Text'']"
    "map timezone (pins ?w) = [JStr ''UTC'']" "map status (pins ?w) = [JStr ''scheduled'']"
    "map recurrence_pattern (pins ?w) = [JNull]" "map scheduled_for (pins ?w) = [50]"
    by (simp_all add: recurring_job_store_def recurring_job_def example_world_def example_pin_def)
  from t falsy have
    c1: "map title (pins (snd ?R)) = map title (pins ?w)" and
    c2: "map description (pins (snd ?R)) = map description (pins ?w)" and
    c3: "map timezone (pins (snd ?R)) = map timezone (pins ?w)" and
    c4: "map status (pins (snd ?R)) = map status (pins ?w)" and
    c5: "map recurrence_pattern (pins (snd ?R)) = map recurrence_pattern (pins ?w)" and
    c6: "map scheduled_for (pins (snd ?R)) = map scheduled_for (pins ?w)" and
    d: "fst ?R = (if False then Fail 500 ''Failed to update scheduled pin''
                  else Done (apply_updates ?b None ?e))"
    by blast+
  have b: "b_is_recurring ?b = JBool False" by simp
  from d have d': "fst ?R = Done (apply_updates ?b None ?e)" by simp
  from t b d' have r: "is_recurring (apply_updates ?b None ?e) = JBool False"
    and f: "filter (\<lambda>p. pid p = ''p1'' \<and> user_id p = ''u1'') (pins (snd ?R))
              = [apply_updates ?b None ?e]"
    by blast+
  have c7: "map is_recurring (filter (\<lambda>p. pid p = ''p1'' \<and> user_id p = ''u1'') (pins (snd ?R)))
              = [JBool False]"
    unfolding f using r by simp
  from ta falsy' have "fst ?A = (if False then Fail 500 ''Failed to update scheduled pin''
                  else Done (apply_updates example_update None ?e))"
    by blast
  moreover have "apply_updates example_update None ?e = ?e"
    by (simp add: apply_updates_def example_update_def recurring_job_def example_pin_def)
  ultimately have a1: "fst ?A = Done ?e" by simp
  have a2: "snd ?A = ?w"
    by (simp add: put_scheduled_pin_def apply_updates_def example_update_def recurring_job_def
        recurring_job_store_def example_pin_def example_world_def example_builtins_def Let_def)
  from tf falsy' have "fst ?F = (if True then Fail 500 ''Failed to update scheduled pin''
                  else Done (apply_updates example_update None ?e))"
    by blast
  then have f1: "fst ?F = Fail 500 ''Failed to update scheduled pin''" by simp
  have f2: "snd ?F = ?w"
    by (simp add: put_scheduled_pin_def example_update_def recurring_job_def
        recurring_job_store_def example_pin_def example_world_def example_builtins_def Let_def)
  from a1 a2 have A: "?A = (Done ?e, ?w)" by (simp add: prod_eq_iff)
  from f1 f2 have F: "?F = (Fail 500 ''Failed to update scheduled pin'', ?w)"
    by (simp add: prod_eq_iff)
  show ?thesis
    using found np A F c1 c2 c3 c4 c5 c6 c7 unfolding cols by (intro conjI)
qed
section \<open>Rows of one job under the scheduler\<close>

lemma rows_iff: "p \<in> set (rows i w) \<longleftrightarrow> p \<in> set (pins w) \<and> pid p = i"
  by (simp add: rows_def)

lemma filter_map_cond_other:
  assumes "\<And>r. c r \<Longrightarrow> pid r \<noteq> i" and "\<And>r. pid (f r) = pid r"
  shows "filter (\<lambda>p. pid p = i) (map (\<lambda>r. if c r then f r else r) xs)
           = filter (\<lambda>p. pid p = i) xs"
proof (induction xs)
  case Nil
  show ?case by simp
next
  case (Cons a xs)
  show ?case
  proof (cases "c a")
    case True
    then have "pid a \<noteq> i" by (rule assms(1))
    moreover from this have "pid (f a) \<noteq> i" by (simp add: assms(2))
    ultimately show ?thesis using True Cons.IH by simp
  next
    case False
    then show ?thesis using Cons.IH by simp
  qed
qed

lemma filter_map_cond_self:
  assumes "\<And>r. pid (f r) = pid r"
  shows "filter (\<lambda>p. pid p = i) (map (\<lambda>r. if pid r = i \<and> c r then f r else r) xs)
           = map (\<lambda>r. if c r then f r else r) (filter (\<lambda>p. pid p = i) xs)"
  by (induction xs) (simp_all add: assms)

lemma rows_update_pin_other:
  assumes "j \<noteq> i" and "\<And>r. pid (f r) = pid r"
  shows "rows i (update_pin j f w) = rows i w"
  unfolding rows_def pins_update_pin
  by (rule filter_map_cond_other) (use assms in auto)

lemma filter_map_hit:
  assumes "\<And>r. pid (f r) = pid r"
  shows "filter (\<lambda>p. pid p = i) (map (\<lambda>r. if pid r = i then f r else r) xs)
           = map f (filter (\<lambda>p. pid p = i) xs)"
  by (induction xs) (simp_all add: assms)

lemma rows_update_pin_self:
  assumes "\<And>r. pid (f r) = pid r"
  shows "rows i (update_pin i f w) = map f (rows i w)"
  unfolding rows_def pins_update_pin by (rule filter_map_hit) (rule assms)

lemma rows_handlePinError_other:
  assumes "j \<noteq> i"
  shows "rows i (handlePinError z now j msg c w) = rows i w"
proof (cases "c + 1 \<le> maxRetries")
  case True
  show ?thesis unfolding handlePinError_retry[OF True]
    by (rule rows_update_pin_other[OF assms]) simp
next
  case False
  show ?thesis unfolding handlePinError_final[OF False]
    by (rule rows_update_pin_other[OF assms]) simp
qed

lemma debit_log_handlePinError: "debit_log (handlePinError z now j msg c w) = debit_log w"
  by (cases "c + 1 \<le> maxRetries")
     (simp_all add: handlePinError_retry handlePinError_final debit_log_update_pin)

lemma post_log_handlePinError: "post_log (handlePinError z now j msg c w) = post_log w"
  by (cases "c + 1 \<le> maxRetries")
     (simp_all add: handlePinError_retry handlePinError_final post_log_update_pin)

lemma deductUserCredits_frame:
  "pins (deductUserCredits u a w) = pins w"
  "debit_log (deductUserCredits u a w) = debit_log w"
  "post_log (deductUserCredits u a w) = post_log w"
  by (simp_all add: deductUserCredits_def Let_def split: option.splits)

lemma rows_deductUserCredits: "rows i (deductUserCredits u a w) = rows i w"
  by (simp add: rows_def deductUserCredits_frame)

lemma rows_logs:
  "rows i (w\<lparr>post_log := x\<rparr>) = rows i w"
  "rows i (w\<lparr>debit_log := y\<rparr>) = rows i w"
  by (simp_all add: rows_def)

text \<open>An attempt on one job leaves the rows of every other job as they were.\<close>

lemma processScheduledPin_other_rows:
  assumes "pid (fst snap) \<noteq> i"
  shows "rows i (processScheduledPin z now oc snap w) = rows i w"
proof (cases oc)
  case DbError
  then show ?thesis by (simp add: processScheduledPin_def)
next
  case (ApiOk ext)
  then show ?thesis using assms
    by (simp add: processScheduledPin_def Let_def rows_handlePinError_other
        rows_update_pin_other rows_deductUserCredits rows_logs)
next
  case (ApiError m)
  then show ?thesis using assms
    by (simp add: processScheduledPin_def Let_def rows_handlePinError_other
        rows_update_pin_other rows_logs)
next
  case (ApiThrow m)
  then show ?thesis using assms
    by (simp add: processScheduledPin_def Let_def rows_handlePinError_other
        rows_update_pin_other rows_logs)
qed

lemma processScheduledPin_other_debits:
  assumes "pid (fst snap) \<noteq> i"
  shows "count_list (debit_log (processScheduledPin z now oc snap w)) i = count_list (debit_log w) i"
proof (cases oc)
  case DbError
  then show ?thesis by (simp add: processScheduledPin_def)
next
  case (ApiOk ext)
  then show ?thesis using assms
    by (simp add: processScheduledPin_def Let_def debit_log_handlePinError
        debit_log_update_pin deductUserCredits_frame)
next
  case (ApiError m)
  then show ?thesis using assms
    by (simp add: processScheduledPin_def Let_def debit_log_handlePinError debit_log_update_pin)
next
  case (ApiThrow m)
  then show ?thesis using assms
    by (simp add: processScheduledPin_def Let_def debit_log_handlePinError debit_log_update_pin)
qed

lemma process_all_other:
  assumes "\<forall>s \<in> set ss. pid (fst s) \<noteq> i"
  shows "rows i (process_all tk ss w) = rows i w
       \<and> count_list (debit_log (process_all tk ss w)) i = count_list (debit_log w) i"
  using assms
proof (induction ss arbitrary: w)
  case Nil
  show ?case by simp
next
  case (Cons s ss)
  from Cons.prems have s: "pid (fst s) \<noteq> i" and rest: "\<forall>s \<in> set ss. pid (fst s) \<noteq> i"
    by simp_all
  show ?case
    using Cons.IH[OF rest] processScheduledPin_other_rows[OF s]
      processScheduledPin_other_debits[OF s]
    by simp
qed

lemma fetchDue_member:
  assumes "p \<in> set (fetchDue t1 t2 w)"
  shows "p \<in> set (pins w)" and "is_due t1 t2 p"
proof -
  from assms have "p \<in> set (sort_key scheduled_for (filter (is_due t1 t2) (pins w)))"
    unfolding fetchDue_def by (rule in_set_takeD)
  then show "p \<in> set (pins w)" and "is_due t1 t2 p" by simp_all
qed


text \<open>
  The attempts of a pass write only to the jobs its query returned, and the query returns
  no job whose status is neither \<^verbatim>\<open>scheduled\<close> nor \<^verbatim>\<open>failed\<close>: whatever the
  store has become by the time the attempts run, a job none of whose rows was due when
  the query ran is left as it is.
\<close>

lemma pass_skips_not_due:
  assumes "\<forall>p \<in> set (rows i w). status p \<noteq> JStr ''scheduled'' \<and> status p \<noteq> JStr ''failed''"
  shows "rows i (process_all tk (map (\<lambda>p. (p, joined_token w p)) (fetchDue t1 t2 w)) w') = rows i w'
       \<and> count_list (debit_log (process_all tk (map (\<lambda>p. (p, joined_token w p))
                                                   (fetchDue t1 t2 w)) w')) i
           = count_list (debit_log w') i"
proof -
  have "\<forall>s \<in> set (map (\<lambda>p. (p, joined_token w p)) (fetchDue t1 t2 w)). pid (fst s) \<noteq> i"
  proof
    fix s assume "s \<in> set (map (\<lambda>p. (p, joined_token w p)) (fetchDue t1 t2 w))"
    then obtain p where p: "p \<in> set (fetchDue t1 t2 w)" and s: "fst s = p"
      by auto
    from fetchDue_member[OF p] have m: "p \<in> set (pins w)"
      and d: "status p = JStr ''scheduled'' \<or> status p = JStr ''failed''"
      by (simp_all add: is_due_def)
    show "pid (fst s) \<noteq> i"
    proof
      assume "pid (fst s) = i"
      with s m have "p \<in> set (rows i w)" by (simp add: rows_iff)
      with assms d show False by blast
    qed
  qed
  from process_all_other[OF this] show ?thesis .
qed

text \<open>A pass of the scheduler does not touch a job none of whose rows is due.\<close>

lemma processScheduledPins_not_due:
  assumes "\<forall>p \<in> set (rows i w). status p \<noteq> JStr ''scheduled'' \<and> status p \<noteq> JStr ''failed''"
  shows "rows i (processScheduledPins tk w) = rows i w
       \<and> count_list (debit_log (processScheduledPins tk w)) i = count_list (debit_log w) i"
proof (cases "fetch_error tk")
  case True
  then show ?thesis by (simp add: processScheduledPins_def)
next
  case False
  with pass_skips_not_due[OF assms, of tk "t_lte tk" "t_or tk" w] show ?thesis
    by (simp add: processScheduledPins_def)
qed
section \<open>Terminal states\<close>

lemma single_SomeD: "single xs = Some e \<Longrightarrow> xs = [e]"
  by (cases xs rule: single.cases) simp_all

lemma found_in_rows:
  assumes "single (filter (\<lambda>p. pid p = j \<and> user_id p = u) (pins w)) = Some e"
  shows "e \<in> set (rows j w)"
proof -
  from single_SomeD[OF assms] have "e \<in> set (filter (\<lambda>p. pid p = j \<and> user_id p = u) (pins w))"
    by simp
  then show ?thesis by (simp add: rows_iff)
qed

lemma delete_scheduled_pin_posted:
  assumes "single (filter (\<lambda>p. pid p = i \<and> user_id p = u) (pins w)) = Some e"
    and "status e = JStr ''posted''"
  shows "delete_scheduled_pin (Some u) i ue w =
           (Fail 400 ''Cannot delete a pin that has already been posted'', w)"
  using assms by (simp add: delete_scheduled_pin_def)

lemma delete_scheduled_pin_pins:
  "pins (snd (delete_scheduled_pin auth j ue w)) = pins w
   \<or> (\<exists>u e. single (filter (\<lambda>p. pid p = j \<and> user_id p = u) (pins w)) = Some e
            \<and> status e \<noteq> JStr ''posted''
            \<and> pins (snd (delete_scheduled_pin auth j ue w)) =
                map (\<lambda>r. if pid r = j \<and> user_id r = u then r\<lparr>status := JStr ''cancelled''\<rparr> else r)
                    (pins w))"
proof (cases auth)
  case None
  then show ?thesis by (simp add: delete_scheduled_pin_def)
next
  case (Some u)
  show ?thesis
  proof (cases "single (filter (\<lambda>p. pid p = j \<and> user_id p = u) (pins w))")
    case None
    with Some show ?thesis by (simp add: delete_scheduled_pin_def)
  next
    case found: (Some e)
    show ?thesis
    proof (cases "status e = JStr ''posted'' \<or> ue")
      case True
      with found Some show ?thesis by (auto simp: delete_scheduled_pin_def)
    next
      case False
      with found Some have "pins (snd (delete_scheduled_pin auth j ue w)) =
                map (\<lambda>r. if pid r = j \<and> user_id r = u then r\<lparr>status := JStr ''cancelled''\<rparr> else r)
                    (pins w)"
        by (simp add: delete_scheduled_pin_def)
      with found False show ?thesis by blast
    qed
  qed
qed

lemma delete_scheduled_pin_permanent_pins:
  "set (pins (snd (delete_scheduled_pin_permanent auth j de w))) \<subseteq> set (pins w)"
  by (auto simp: delete_scheduled_pin_permanent_def split: option.splits)

lemma rows_after_map_other:
  assumes "j \<noteq> i" and "\<And>r. pid (f r) = pid r"
    and "pins w' = map (\<lambda>r. if pid r = j \<and> user_id r = u then f r else r) (pins w)"
  shows "rows i w' = rows i w"
  unfolding rows_def assms(3)
  by (rule filter_map_cond_other) (use assms(1,2) in auto)

text \<open>An update that changes nothing on the one row it selects changes nothing.\<close>

lemma map_single_fixed:
  assumes "single (filter c xs) = Some e" and "f e = e"
  shows "map (\<lambda>r. if c r then f r else r) xs = xs"
proof -
  from single_SomeD[OF assms(1)] have one: "filter c xs = [e]" .
  have "\<And>r. r \<in> set xs \<Longrightarrow> c r \<Longrightarrow> r = e"
  proof -
    fix r assume "r \<in> set xs" and "c r"
    then have "r \<in> set (filter c xs)" by simp
    with one show "r = e" by simp
  qed
  then have "\<And>r. r \<in> set xs \<Longrightarrow> (if c r then f r else r) = r"
    using assms(2) by auto
  then show ?thesis by (simp add: map_idI)
qed

lemma put_keeps_posted:
  assumes "\<forall>p \<in> set (rows i w). status p = JStr ''posted''"
  shows "rows i (snd (put_scheduled_pin B auth j b now ue w)) = rows i w"
proof -
  from put_scheduled_pin_pins[of B auth j b now ue w] show ?thesis
  proof (elim disjE exE conjE)
    assume "pins (snd (put_scheduled_pin B auth j b now ue w)) = pins w"
    then show ?thesis by (simp add: rows_def)
  next
    fix u sf e
    assume p: "pins (snd (put_scheduled_pin B auth j b now ue w)) =
         map (\<lambda>r. if pid r = j \<and> user_id r = u then apply_updates b sf r else r) (pins w)"
      and f: "single (filter (\<lambda>p. pid p = j \<and> user_id p = u) (pins w)) = Some e"
      and n: "status e \<noteq> JStr ''posted''"
    have "j \<noteq> i"
    proof
      assume "j = i"
      with found_in_rows[OF f] assms n show False by blast
    qed
    then show ?thesis
      by (rule rows_after_map_other[OF _ _ p]) (simp add: apply_updates_fields)
  qed
qed

lemma cancel_keeps_terminal:
  assumes "\<forall>p \<in> set (rows i w). status p = JStr ''posted'' \<or> status p = JStr ''cancelled''"
  shows "rows i (snd (delete_scheduled_pin auth j ue w)) = rows i w"
proof -
  from delete_scheduled_pin_pins[of auth j ue w] show ?thesis
  proof (elim disjE exE conjE)
    assume "pins (snd (delete_scheduled_pin auth j ue w)) = pins w"
    then show ?thesis by (simp add: rows_def)
  next
    fix u e
    assume p: "pins (snd (delete_scheduled_pin auth j ue w)) =
         map (\<lambda>r. if pid r = j \<and> user_id r = u then r\<lparr>status := JStr ''cancelled''\<rparr> else r)
             (pins w)"
      and f: "single (filter (\<lambda>p. pid p = j \<and> user_id p = u) (pins w)) = Some e"
      and n: "status e \<noteq> JStr ''posted''"
    show ?thesis
    proof (cases "j = i")
      case False
      then show ?thesis by (rule rows_after_map_other[OF _ _ p]) simp
    next
      case True
      with found_in_rows[OF f] assms n have "status e = JStr ''cancelled''" by blast
      then have "e\<lparr>status := JStr ''cancelled''\<rparr> = e" by simp
      from map_single_fixed[of "\<lambda>p. pid p = j \<and> user_id p = u" "pins w" e
          "\<lambda>r. r\<lparr>status := JStr ''cancelled''\<rparr>", OF f this] p
      have "pins (snd (delete_scheduled_pin auth j ue w)) = pins w" by simp
      then show ?thesis by (simp add: rows_def)
    qed
  qed
qed

text \<open>
  The user update writes the status it is given on every job it does not reject: the only
  status it tests for is \<^verbatim>\<open>posted\<close>.
\<close>

lemma put_writes_status:
  assumes "single (filter (\<lambda>p. pid p = i \<and> user_id p = u) (pins w)) = Some e"
    and "status e \<noteq> JStr ''posted''"
    and "truthy (b_status b)"
    and "fst (put_scheduled_pin B (Some u) i b now ue w) = Done r"
  shows "status r = b_status b"
    and "filter (\<lambda>p. pid p = i \<and> user_id p = u)
           (pins (snd (put_scheduled_pin B (Some u) i b now ue w))) = [r]"
proof -
  let ?sf = "if truthy (b_scheduled_for b) then date_of B (b_scheduled_for b) else None"
  from assms(4) have r: "r = apply_updates b ?sf e"
    unfolding put_scheduled_pin_found[OF assms(1,2)] by (auto split: if_splits)
  from assms(4) have p: "pins (snd (put_scheduled_pin B (Some u) i b now ue w)) =
      map (\<lambda>r. if pid r = i \<and> user_id r = u then apply_updates b ?sf r else r) (pins w)"
    unfolding put_scheduled_pin_found[OF assms(1,2)] by (auto split: if_splits)
  from assms(3) show "status r = b_status b" by (simp add: r apply_updates_fields)
  show "filter (\<lambda>p. pid p = i \<and> user_id p = u)
               (pins (snd (put_scheduled_pin B (Some u) i b now ue w))) = [r]"
    unfolding p r
    by (rule filter_single_map[OF assms(1)]) (simp add: apply_updates_fields)
qed

text \<open>
  C6, as the code has it. A user update or a cancel request that finds the job
  \<^verbatim>\<open>posted\<close> is answered with the 400 rejection and writes nothing, and a request
  for another job does not write to it. A cancel request that finds the job
  \<^verbatim>\<open>cancelled\<close> leaves its rows as they are. The permanent delete only removes rows.
  The attempts of a scheduler pass whose query ran on a store in which the job was
  \<^verbatim>\<open>posted\<close> or \<^verbatim>\<open>cancelled\<close> write nothing to the job, whatever the store is
  when they run. The user update, however, tests for no status but \<^verbatim>\<open>posted\<close>: on a
  job with any other status, \<^verbatim>\<open>cancelled\<close> included, a request that supplies a
  truthy status and is answered with success has written that status.
\<close>

theorem terminal_states:
  "(single (filter (\<lambda>p. pid p = i \<and> user_id p = u) (pins w)) = Some e
        \<and> status e = JStr ''posted'' \<longrightarrow>
      put_scheduled_pin B (Some u) i b now ue w =
        (Fail 400 ''Cannot update a pin that has already been posted'', w)
    \<and> delete_scheduled_pin (Some u) i ue w =
        (Fail 400 ''Cannot delete a pin that has already been posted'', w))
   \<and> ((\<forall>p \<in> set (rows i w). status p = JStr ''posted'') \<longrightarrow>
      rows i (snd (put_scheduled_pin B auth j b now ue w)) = rows i w)
   \<and> ((\<forall>p \<in> set (rows i w). status p = JStr ''posted'' \<or> status p = JStr ''cancelled'') \<longrightarrow>
      rows i (snd (delete_scheduled_pin auth j ue w)) = rows i w
    \<and> rows i (process_all tk (map (\<lambda>p. (p, joined_token w p)) (fetchDue t1 t2 w)) w')
        = rows i w'
    \<and> rows i (processScheduledPins tk w) = rows i w)
   \<and> set (pins (snd (delete_scheduled_pin_permanent auth j de w))) \<subseteq> set (pins w)
   \<and> (single (filter (\<lambda>p. pid p = i \<and> user_id p = u) (pins w)) = Some e
        \<and> status e \<noteq> JStr ''posted'' \<and> truthy (b_status b)
        \<and> fst (put_scheduled_pin B (Some u) i b now ue w) = Done r \<longrightarrow>
      status r = b_status b
    \<and> filter (\<lambda>p. pid p = i \<and> user_id p = u)
         (pins (snd (put_scheduled_pin B (Some u) i b now ue w))) = [r])"
proof (intro conjI impI)
  assume a: "single (filter (\<lambda>p. pid p = i \<and> user_id p = u) (pins w)) = Some e
        \<and> status e = JStr ''posted''"
  then show "put_scheduled_pin B (Some u) i b now ue w =
        (Fail 400 ''Cannot update a pin that has already been posted'', w)"
    by (simp add: put_scheduled_pin_posted)
  from a show "delete_scheduled_pin (Some u) i ue w =
        (Fail 400 ''Cannot delete a pin that has already been posted'', w)"
    by (simp add: delete_scheduled_pin_posted)
next
  assume "\<forall>p \<in> set (rows i w). status p = JStr ''posted''"
  then show "rows i (snd (put_scheduled_pin B auth j b now ue w)) = rows i w"
    by (rule put_keeps_posted)
next
  assume a: "\<forall>p \<in> set (rows i w). status p = JStr ''posted'' \<or> status p = JStr ''cancelled''"
  then show "rows i (snd (delete_scheduled_pin auth j ue w)) = rows i w"
    by (rule cancel_keeps_terminal)
  from a have n: "\<forall>p \<in> set (rows i w). status p \<noteq> JStr ''scheduled'' \<and> status p \<noteq> JStr ''failed''"
    by auto
  from pass_skips_not_due[OF n]
  show "rows i (process_all tk (map (\<lambda>p. (p, joined_token w p)) (fetchDue t1 t2 w)) w')
        = rows i w'"
    by blast
  from processScheduledPins_not_due[OF n] show "rows i (processScheduledPins tk w) = rows i w"
    by blast
next
  show "set (pins (snd (delete_scheduled_pin_permanent auth j de w))) \<subseteq> set (pins w)"
    by (rule delete_scheduled_pin_permanent_pins)
next
  assume a: "single (filter (\<lambda>p. pid p = i \<and> user_id p = u) (pins w)) = Some e
        \<and> status e \<noteq> JStr ''posted'' \<and> truthy (b_status b)
        \<and> fst (put_scheduled_pin B (Some u) i b now ue w) = Done r"
  then have f: "single (filter (\<lambda>p. pid p = i \<and> user_id p = u) (pins w)) = Some e"
    and n: "status e \<noteq> JStr ''posted''" and t: "truthy (b_status b)"
    and d: "fst (put_scheduled_pin B (Some u) i b now ue w) = Done r"
    by simp_all
  from put_writes_status[OF f n t d]
  show "status r = b_status b"
    and "filter (\<lambda>p. pid p = i \<and> user_id p = u)
         (pins (snd (put_scheduled_pin B (Some u) i b now ue w))) = [r]"
    by simp_all
qed
section \<open>The scheduler on concrete stores\<close>

lemmas scheduler_defs =
  processScheduledPins_def processScheduledPin_def process_all.simps fetchDue_def is_due_def
  batchLimit_def Let_def update_pin_def handlePinError_def maxRetries_def deductUserCredits_def
  joined_token_def example_world_def example_pin_def example_tick_def add_minutes_def
  backoffMinutes_def utc_zone_def

text \<open>
  Once \<^verbatim>\<open>handlePinError\<close> has taken its last branch, every row of the job satisfies
  the filter of the due query at every instant from its \<^verbatim>\<open>scheduled_for\<close> on.
\<close>

lemma permanent_failure_stays_due:
  assumes "\<not> c + 1 \<le> maxRetries" and "p' \<in> set (rows i (handlePinError z now i msg c w))"
    and "scheduled_for p' \<le> t1"
  shows "is_due t1 t2 p'"
proof -
  let ?g = "\<lambda>r. r\<lparr>status := JStr ''failed'',
        error_message := Some (''Max retries reached: '' @ msg), next_retry_at := None\<rparr>"
  have "rows i (handlePinError z now i msg c w) = map ?g (rows i w)"
    unfolding handlePinError_final[OF assms(1)] by (rule rows_update_pin_self) simp
  with assms(2) obtain r where "p' = ?g r" by auto
  then have "status p' = JStr ''failed''" and "next_retry_at p' = None" by simp_all
  with assms(3) show ?thesis by (simp add: is_due_def)
qed

text \<open>
  C1, on the code. A job with three retries used fails once more at instant 1000: it is
  written back as \<^verbatim>\<open>failed\<close> with \<^verbatim>\<open>next_retry_at\<close> null and its retry count still
  3. The due query, which accepts a null \<^verbatim>\<open>next_retry_at\<close> and has no test on the retry
  count, returns it again at instants 2000 and 90000000, and a pass at 2000 publishes it
  again.
\<close>

theorem capped_job_is_due_again:
  "map pid (fetchDue 1000 1000 capped_job_store) = [''p1'']
   \<and> pins (processScheduledPins (example_tick 1000 (ApiError ''boom'')) capped_job_store) =
       [(example_pin ''p1'' (JStr ''failed'') 0)\<lparr>retry_count := 3, next_retry_at := None,
           error_message := Some ''Max retries reached: boom''\<rparr>]
   \<and> map pid (fetchDue 2000 2000
         (processScheduledPins (example_tick 1000 (ApiError ''boom'')) capped_job_store)) = [''p1'']
   \<and> map pid (fetchDue 90000000 90000000
         (processScheduledPins (example_tick 1000 (ApiError ''boom'')) capped_job_store)) = [''p1'']
   \<and> post_log (processScheduledPins (example_tick 2000 (ApiError ''boom''))
         (processScheduledPins (example_tick 1000 (ApiError ''boom'')) capped_job_store))
       = [''p1'', ''p1'']"
  by (simp add: capped_job_store_def scheduler_defs)

text \<open>
  C2, on the code. Two pollers query the same store before either has claimed the due job,
  so both hold the row as \<^verbatim>\<open>scheduled\<close>. The first runs its attempt and posts the job.
  The second then runs its attempt on the row it holds: its update to \<^verbatim>\<open>posting\<close> is
  keyed by the id alone, goes through although the stored status is now \<^verbatim>\<open>posted\<close>,
  and the job is published a second time.
\<close>

theorem two_pollers_publish_twice:
  "map pid (fetchDue 1000 1000 due_job_store) = [''p1'']
   \<and> map status (pins (process_all (example_tick 1000 (ApiOk ''x1''))
         (map (\<lambda>p. (p, joined_token due_job_store p)) (fetchDue 1000 1000 due_job_store))
         due_job_store)) = [JStr ''posted'']
   \<and> post_log (process_all (example_tick 1001 (ApiOk ''x2''))
         (map (\<lambda>p. (p, joined_token due_job_store p)) (fetchDue 1000 1000 due_job_store))
         (process_all (example_tick 1000 (ApiOk ''x1''))
            (map (\<lambda>p. (p, joined_token due_job_store p)) (fetchDue 1000 1000 due_job_store))
            due_job_store))
       = [''p1'', ''p1'']
   \<and> map pinterest_pin_id (pins (process_all (example_tick 1001 (ApiOk ''x2''))
         (map (\<lambda>p. (p, joined_token due_job_store p)) (fetchDue 1000 1000 due_job_store))
         (process_all (example_tick 1000 (ApiOk ''x1''))
            (map (\<lambda>p. (p, joined_token due_job_store p)) (fetchDue 1000 1000 due_job_store))
            due_job_store)))
       = [Some ''x2'']"
  by (simp add: due_job_store_def scheduler_defs)

text \<open>
  The first update of an attempt does not look at the stored status: whenever the store
  accepts it and the row came with a token, the publish request is issued.
\<close>

lemma claim_is_unconditional:
  assumes "oc \<noteq> DbError" and "tok \<noteq> None" and "tok \<noteq> Some []"
  shows "post_log (processScheduledPin z now oc (q, tok) w) = post_log w @ [pid q]"
  using assms
  by (cases oc)
     (simp_all add: processScheduledPin_def Let_def post_log_update_pin post_log_handlePinError
        deductUserCredits_frame)

text \<open>
  C3, on the code. The test before the debit reads \<^verbatim>\<open>credits_deducted\<close> from the row
  the query returned, not from the store. Two passes (two ticks of the timer, or a tick and
  the manual trigger) query the store before either has claimed the due job, so both hold
  the row with the flag unset. The first posts the job, debits one credit and sets the
  flag; the second, on the row it holds, posts the job again and debits a second credit:
  the balance goes from 5 to 3 for one job.
\<close>

theorem overlapping_passes_debit_twice:
  "map credits_remaining (profiles due_job_store) = [Some 5]
   \<and> map pid (fetchDue 1000 1000 due_job_store) = [''p1'']
   \<and> map credits_deducted (fetchDue 1000 1000 due_job_store) = [False]
   \<and> debit_log (process_all (example_tick 1000 (ApiOk ''x1''))
         (map (\<lambda>p. (p, joined_token due_job_store p)) (fetchDue 1000 1000 due_job_store))
         due_job_store) = [''p1'']
   \<and> map credits_deducted (pins (process_all (example_tick 1000 (ApiOk ''x1''))
         (map (\<lambda>p. (p, joined_token due_job_store p)) (fetchDue 1000 1000 due_job_store))
         due_job_store)) = [True]
   \<and> map credits_remaining (profiles (process_all (example_tick 1000 (ApiOk ''x1''))
         (map (\<lambda>p. (p, joined_token due_job_store p)) (fetchDue 1000 1000 due_job_store))
         due_job_store)) = [Some 4]
   \<and> debit_log (process_all (example_tick 1001 (ApiOk ''x2''))
         (map (\<lambda>p. (p, joined_token due_job_store p)) (fetchDue 1000 1000 due_job_store))
         (process_all (example_tick 1000 (ApiOk ''x1''))
            (map (\<lambda>p. (p, joined_token due_job_store p)) (fetchDue 1000 1000 due_job_store))
            due_job_store))
       = [''p1'', ''p1'']
   \<and> map credits_remaining (profiles (process_all (example_tick 1001 (ApiOk ''x2''))
         (map (\<lambda>p. (p, joined_token due_job_store p)) (fetchDue 1000 1000 due_job_store))
         (process_all (example_tick 1000 (ApiOk ''x1''))
            (map (\<lambda>p. (p, joined_token due_job_store p)) (fetchDue 1000 1000 due_job_store))
            due_job_store)))
       = [Some 3]"
  by (simp add: due_job_store_def scheduler_defs)

text \<open>
  C4, on the code. (1) A job that has failed twice comes back from the query without a
  token. The call of \<^verbatim>\<open>handlePinError\<close> on that path passes no retry count, so the
  count written is 1 and the retry instant is 5 minutes after the failure, where the third
  failure should give a count of 3 and 45 minutes; the count never reaches the cap on this
  path. (2) The retry instant is computed on the wall-clock fields of the process. In a
  zone whose clocks go back one hour at instant 10000000, a first failure one minute
  before that instant is given a retry instant 65 minutes after the failure instead of 5.
\<close>

theorem backoff_reset_and_shifted:
  "map retry_count (pins unlinked_job_store) = [2]
   \<and> map pid (fetchDue 1000 1000 unlinked_job_store) = [''p1'']
   \<and> pins (processScheduledPins (example_tick 1000 (ApiOk ''x1'')) unlinked_job_store) =
       [(example_pin ''p1'' (JStr ''failed'') 0)\<lparr>pinterest_account_id := JNull,
           retry_count := 1, next_retry_at := Some (1000 + 5 * 60000),
           error_message := Some ''No Pinterest access token found''\<rparr>]
   \<and> map retry_count (pins due_job_store) = [0]
   \<and> pins (processScheduledPins
         ((example_tick 9940000 (ApiError ''boom''))\<lparr>zone_of := fall_back_zone 10000000\<rparr>)
         due_job_store) =
       [(example_pin ''p1'' (JStr ''failed'') 0)\<lparr>retry_count := 1,
           next_retry_at := Some (9940000 + 65 * 60000),
           error_message := Some ''boom''\<rparr>]"
  by (simp add: unlinked_job_store_def due_job_store_def scheduler_defs fall_back_zone_def)

text \<open>
  C6, as the specification states it, does not hold. A user update that only sets the
  status, sent for a cancelled job, is answered with success; the job is \<^verbatim>\<open>scheduled\<close>
  again and the next due query returns it.
\<close>

theorem cancelled_job_rescheduled:
  "map status (pins cancelled_job_store) = [JStr ''cancelled'']
   \<and> fst (put_scheduled_pin example_builtins (Some ''u1'') ''p6'' (only_status ''scheduled'') 1000
            False cancelled_job_store)
       = Done (example_pin ''p6'' (JStr ''scheduled'') 1)
   \<and> map status (pins (snd (put_scheduled_pin example_builtins (Some ''u1'') ''p6''
         (only_status ''scheduled'') 1000 False cancelled_job_store)))
       = [JStr ''scheduled'']
   \<and> map pid (fetchDue 1000 1000 (snd (put_scheduled_pin example_builtins (Some ''u1'') ''p6''
         (only_status ''scheduled'') 1000 False cancelled_job_store)))
       = [''p6'']"
  by (simp add: cancelled_job_store_def example_world_def example_pin_def only_status_def
      put_scheduled_pin_def apply_updates_def Let_def fetchDue_def is_due_def batchLimit_def)

theorem terminal_states_witness:
  "put_scheduled_pin example_builtins (Some ''u1'') ''p2'' (only_status ''scheduled'') 1000 False
        terminal_store
       = (Fail 400 ''Cannot update a pin that has already been posted'', terminal_store)
   \<and> delete_scheduled_pin (Some ''u1'') ''p2'' False terminal_store
       = (Fail 400 ''Cannot delete a pin that has already been posted'', terminal_store)
   \<and> rows ''p2'' (snd (put_scheduled_pin example_builtins (Some ''u1'') ''p1''
         (only_status ''cancelled'') 1000 False terminal_store)) = rows ''p2'' terminal_store
   \<and> rows ''p6'' (snd (delete_scheduled_pin (Some ''u1'') ''p6'' False terminal_store))
       = rows ''p6'' terminal_store
   \<and> rows ''p2'' (processScheduledPins (example_tick 1000 (ApiOk ''x1'')) terminal_store)
       = rows ''p2'' terminal_store
   \<and> rows ''p6'' (processScheduledPins (example_tick 1000 (ApiOk ''x1'')) terminal_store)
       = rows ''p6'' terminal_store
   \<and> map status (pins (processScheduledPins (example_tick 1000 (ApiOk ''x1'')) terminal_store))
       = [JStr ''posted'', JStr ''cancelled'', JStr ''posted'']
   \<and> set (pins (snd (delete_scheduled_pin_permanent (Some ''u1'') ''p6'' False terminal_store)))
       \<subseteq> set (pins terminal_store)
   \<and> map status (filter (\<lambda>p. pid p = ''p6'' \<and> user_id p = ''u1'')
         (pins (snd (put_scheduled_pin example_builtins (Some ''u1'') ''p6''
            (only_status ''draft'') 1000 False terminal_store))))
       = [JStr ''draft'']"
proof -
  let ?e2 = "example_pin ''p2'' (JStr ''posted'') 10"
  let ?e6 = "example_pin ''p6'' (JStr ''cancelled'') 1"
  let ?tk = "example_tick 1000 (ApiOk ''x1'')"
  have r2: "rows ''p2'' terminal_store = [?e2]" and r6: "rows ''p6'' terminal_store = [?e6]"
    by (simp_all add: rows_def terminal_store_def example_world_def example_pin_fields)
  have h2: "\<forall>p \<in> set (rows ''p2'' terminal_store). status p = JStr ''posted''"
    by (simp add: r2 example_pin_fields)
  then have h2': "\<forall>p \<in> set (rows ''p2'' terminal_store).
      status p = JStr ''posted'' \<or> status p = JStr ''cancelled''"
    by simp
  have h6: "\<forall>p \<in> set (rows ''p6'' terminal_store).
      status p = JStr ''posted'' \<or> status p = JStr ''cancelled''"
    by (simp add: r6 example_pin_fields)
  have f2: "single (filter (\<lambda>p. pid p = ''p2'' \<and> user_id p = ''u1'') (pins terminal_store))
              = Some ?e2"
    and f6: "single (filter (\<lambda>p. pid p = ''p6'' \<and> user_id p = ''u1'') (pins terminal_store))
              = Some ?e6"
    by (simp_all add: terminal_store_def example_world_def example_pin_fields)
  have s2: "status ?e2 = JStr ''posted''" and s6: "status ?e6 \<noteq> JStr ''posted''"
    by (simp_all add: example_pin_fields)
  note t1 = terminal_states[of "''p2''" "''u1''" terminal_store ?e2 example_builtins
      "only_status ''scheduled''" 1000 False]
  from t1 f2 s2 have a: "put_scheduled_pin example_builtins (Some ''u1'') ''p2''
        (only_status ''scheduled'') 1000 False terminal_store
       = (Fail 400 ''Cannot update a pin that has already been posted'', terminal_store)"
    and b: "delete_scheduled_pin (Some ''u1'') ''p2'' False terminal_store
       = (Fail 400 ''Cannot delete a pin that has already been posted'', terminal_store)"
    by blast+
  note t2 = terminal_states[of "''p2''" _ terminal_store _ example_builtins
      "only_status ''cancelled''" 1000 False "Some ''u1''" "''p1''" ?tk]
  from t2 h2 have c: "rows ''p2'' (snd (put_scheduled_pin example_builtins (Some ''u1'') ''p1''
         (only_status ''cancelled'') 1000 False terminal_store)) = rows ''p2'' terminal_store"
    by blast
  from t2 h2' have d: "rows ''p2'' (processScheduledPins ?tk terminal_store)
       = rows ''p2'' terminal_store"
    by blast
  note t3 = terminal_states[of "''p6''" "''u1''" terminal_store ?e6 example_builtins
      "only_status ''draft''" 1000 False "Some ''u1''" "''p6''" ?tk _ _ _ False
      "?e6\<lparr>status := JStr ''draft''\<rparr>"]
  from t3 h6 have e: "rows ''p6'' (snd (delete_scheduled_pin (Some ''u1'') ''p6'' False terminal_store))
       = rows ''p6'' terminal_store"
    and f: "rows ''p6'' (processScheduledPins ?tk terminal_store) = rows ''p6'' terminal_store"
    by blast+
  from t3 have g: "set (pins (snd (delete_scheduled_pin_permanent (Some ''u1'') ''p6'' False
       terminal_store))) \<subseteq> set (pins terminal_store)"
    by blast
  have tr: "truthy (b_status (only_status ''draft''))" by (simp add: only_status_def)
  have dn: "fst (put_scheduled_pin example_builtins (Some ''u1'') ''p6'' (only_status ''draft'')
       1000 False terminal_store) = Done (?e6\<lparr>status := JStr ''draft''\<rparr>)"
    unfolding put_scheduled_pin_found[OF f6 s6]
    by (simp add: only_status_def apply_updates_def example_pin_def)
  from t3 f6 s6 tr dn have "filter (\<lambda>p. pid p = ''p6'' \<and> user_id p = ''u1'')
         (pins (snd (put_scheduled_pin example_builtins (Some ''u1'') ''p6''
            (only_status ''draft'') 1000 False terminal_store)))
       = [?e6\<lparr>status := JStr ''draft''\<rparr>]"
    by blast
  then have h: "map status (filter (\<lambda>p. pid p = ''p6'' \<and> user_id p = ''u1'')
         (pins (snd (put_scheduled_pin example_builtins (Some ''u1'') ''p6''
            (only_status ''draft'') 1000 False terminal_store))))
       = [JStr ''draft'']"
    by simp
  have p: "map status (pins (processScheduledPins ?tk terminal_store))
       = [JStr ''posted'', JStr ''cancelled'', JStr ''posted'']"
    by (simp add: terminal_store_def scheduler_defs)
  from a b c e d f p g h show ?thesis by (intro conjI)
qed

end
